theory Spec2Isabelle
  imports Complex_Main "HOL-Library.Char_ord" "HOL-Library.List_Lexorder" "HOL-Library.Multiset"
begin

section \<open>The JavaScript values the attendance routes compute with\<close>

text \<open>
  The routes of \<^verbatim>\<open>server/routes.ts\<close> receive times of day as text, split them at the
  colons and convert the pieces with \<^verbatim>\<open>Number\<close>. A JavaScript number that may be
  \<^verbatim>\<open>NaN\<close> is modelled as an \<open>option\<close>: \<open>None\<close> is \<^verbatim>\<open>NaN\<close>. Arithmetic with
  \<^verbatim>\<open>NaN\<close> gives \<^verbatim>\<open>NaN\<close>, and every comparison with \<^verbatim>\<open>NaN\<close> is false.

  \<^verbatim>\<open>Number\<close> is modelled on the empty string (which converts to 0) and on strings of
  decimal digits; every other string is \<open>None\<close> here. (JavaScript also accepts signs,
  white space, fractions, exponents and hexadecimal literals; no time of day written
  \<^verbatim>\<open>HH:MM:SS\<close> contains one.) The integers involved are far below \<open>2 ^ 53\<close>, where
  double precision is exact.
\<close>

definition num_add :: "int option \<Rightarrow> int option \<Rightarrow> int option" where
  "num_add a b = (case a of None \<Rightarrow> None | Some x \<Rightarrow> (case b of None \<Rightarrow> None | Some y \<Rightarrow> Some (x + y)))"

definition num_sub :: "int option \<Rightarrow> int option \<Rightarrow> int option" where
  "num_sub a b = (case a of None \<Rightarrow> None | Some x \<Rightarrow> (case b of None \<Rightarrow> None | Some y \<Rightarrow> Some (x - y)))"

definition num_mul :: "int option \<Rightarrow> int option \<Rightarrow> int option" where
  "num_mul a b = (case a of None \<Rightarrow> None | Some x \<Rightarrow> (case b of None \<Rightarrow> None | Some y \<Rightarrow> Some (x * y)))"

definition num_le :: "int option \<Rightarrow> int option \<Rightarrow> bool" where
  "num_le a b = (case a of None \<Rightarrow> False | Some x \<Rightarrow> (case b of None \<Rightarrow> False | Some y \<Rightarrow> x \<le> y))"

text \<open>\<^verbatim>\<open>s.split(c)\<close> for a separator of one character: never an empty list.\<close>

fun split_str :: "char \<Rightarrow> string \<Rightarrow> string list" where
  "split_str c [] = [[]]"
| "split_str c (x # xs) =
     (if x = c then [] # split_str c xs
      else (case split_str c xs of [] \<Rightarrow> [[x]] | p # ps \<Rightarrow> (x # p) # ps))"

definition is_digit :: "char \<Rightarrow> bool" where
  "is_digit c = (48 \<le> (of_char c :: nat) \<and> (of_char c :: nat) \<le> 57)"

definition digit_val :: "char \<Rightarrow> nat" where
  "digit_val c = (of_char c :: nat) - 48"

definition digit_char :: "nat \<Rightarrow> char" where
  "digit_char d = char_of (48 + d)"

text \<open>The value of a string of decimal digits, most significant digit first.\<close>

definition digits_val :: "string \<Rightarrow> nat" where
  "digits_val s = foldl (\<lambda>acc c. 10 * acc + digit_val c) 0 s"

definition Number :: "string \<Rightarrow> int option" where
  "Number s = (if list_all is_digit s then Some (int (digits_val s)) else None)"

text \<open>
  Destructuring \<^verbatim>\<open>const [a, b] = parts\<close> reads \<^verbatim>\<open>undefined\<close> past the end of the
  array, which arithmetic turns into \<^verbatim>\<open>NaN\<close>.
\<close>

definition nth_num :: "int option list \<Rightarrow> nat \<Rightarrow> int option" where
  "nth_num ps i = (if i < length ps then ps ! i else None)"

text \<open>\<^verbatim>\<open>String(n)\<close> for a natural number, and \<^verbatim>\<open>padStart(2, "0")\<close>.\<close>

fun digits_of :: "nat \<Rightarrow> string" where
  "digits_of n = (if n < 10 then [digit_char n] else digits_of (n div 10) @ [digit_char (n mod 10)])"

declare digits_of.simps [simp del]

definition pad2 :: "string \<Rightarrow> string" where
  "pad2 s = replicate (2 - length s) (CHR ''0'') @ s"

text \<open>
  The text \<^verbatim>\<open>format(now, "HH:mm:ss")\<close> of date-fns produces for the hour \<open>h\<close>, minute
  \<open>m\<close> and second \<open>s\<close> of the clock: the canonical \<^verbatim>\<open>HH:MM:SS\<close> time of day.
\<close>

definition time_str :: "nat \<Rightarrow> nat \<Rightarrow> nat \<Rightarrow> string" where
  "time_str h m s = pad2 (digits_of h) @ '':'' @ pad2 (digits_of m) @ '':'' @ pad2 (digits_of s)"

text \<open>
  \<^verbatim>\<open>diffMinutes / 60\<close> and \<^verbatim>\<open>hoursWorked < 4\<close>. The quotient of an integer by 60 is
  kept as the exact rational number. The double that JavaScript computes is the nearest
  one to it, at a relative distance below \<open>2 ^ -52\<close>; since one hundred times a multiple
  of \<open>1/60\<close> is never closer than \<open>1/6\<close> to a half-integer, rounding the double to two
  decimals gives the same digits as rounding the rational, and a value with two decimals
  compares with 4 as its double does.
\<close>

definition num_div :: "int option \<Rightarrow> int \<Rightarrow> rat option" where
  "num_div a b = (case a of None \<Rightarrow> None | Some x \<Rightarrow> Some (of_int x / of_int b))"

definition num_lt :: "rat option \<Rightarrow> rat \<Rightarrow> bool" where
  "num_lt a b = (case a of None \<Rightarrow> False | Some x \<Rightarrow> x < b)"

text \<open>
  \<^verbatim>\<open>x.toFixed(2)\<close>, as ECMAScript defines it: \<^verbatim>\<open>"NaN"\<close> for \<^verbatim>\<open>NaN\<close>; otherwise a
  minus sign when \<open>x < 0\<close>, then the integer \<open>n\<close> for which \<open>n / 100\<close> is nearest to
  \<open>\<bar>x\<bar>\<close> (the larger one of two equally near), written in decimal, padded with
  zeros to at least three digits, with a point before the last two. (Magnitudes from
  \<open>10 ^ 21\<close> on, which print in exponent form, do not arise from times of day and are
  not modelled.)
\<close>

definition toFixed2 :: "rat option \<Rightarrow> string" where
  "toFixed2 x =
     (case x of
        None \<Rightarrow> ''NaN''
      | Some q \<Rightarrow>
          (let s = (if q < 0 then ''-'' else []);
               a = \<bar>q\<bar>;
               n = nat \<lfloor>a * 100 + 1 / 2\<rfloor>;
               m = digits_of n;
               m = (if length m \<le> 2 then replicate (3 - length m) (CHR ''0'') @ m else m);
               k = length m
           in s @ take (k - 2) m @ ''.'' @ drop (k - 2) m))"

text \<open>
  \<^verbatim>\<open>parseFloat\<close> on text that starts with an optional sign, decimal digits and an
  optional fraction; \<open>None\<close> (\<^verbatim>\<open>NaN\<close>) when there is no digit. (Leading white space,
  exponents and \<^verbatim>\<open>Infinity\<close> are not modelled; \<open>toFixed2\<close> produces none.)
\<close>

definition parseFloat :: "string \<Rightarrow> rat option" where
  "parseFloat str =
     (let neg = (case str of [] \<Rightarrow> False | c # cs \<Rightarrow> c = CHR ''-'');
          r = (case str of [] \<Rightarrow> [] | c # cs \<Rightarrow> if c = CHR ''-'' \<or> c = CHR ''+'' then cs else str);
          ip = takeWhile is_digit r;
          r1 = dropWhile is_digit r;
          fp = (case r1 of [] \<Rightarrow> [] | c # cs \<Rightarrow> if c = CHR ''.'' then takeWhile is_digit cs else []);
          v = of_nat (digits_val ip) + of_nat (digits_val fp) / 10 ^ length fp
      in if ip = [] \<and> fp = [] then None else Some (if neg then - v else v))"

text \<open>
  The truth value JavaScript gives a \<^verbatim>\<open>string | null | undefined\<close>: false for
  \<^verbatim>\<open>null\<close>, \<^verbatim>\<open>undefined\<close> (both \<open>None\<close>) and for the empty string.
\<close>

definition truthy :: "string option \<Rightarrow> bool" where
  "truthy x = (case x of None \<Rightarrow> False | Some s \<Rightarrow> s \<noteq> [])"

text \<open>
  \<^verbatim>\<open>a >= b\<close> on strings compares code units lexicographically: the order of
  \<open>HOL-Library.List_Lexorder\<close> over \<open>HOL-Library.Char_ord\<close>. \<^verbatim>\<open>a.localeCompare(b)\<close> is
  modelled by the same order; on the dates of this system, digits and hyphens in the
  shape \<^verbatim>\<open>YYYY-MM-DD\<close>, the default collation agrees with it.
\<close>

definition localeCompare :: "string \<Rightarrow> string \<Rightarrow> int" where
  "localeCompare a b = (if a < b then - 1 else if a = b then 0 else 1)"

text \<open>
  \<^verbatim>\<open>xs.sort(cmp)\<close> is stable, so with a consistent comparator its result does not
  depend on the engine's algorithm; insertion from the right computes it.
\<close>

fun insort_cmp :: "('a \<Rightarrow> 'a \<Rightarrow> int) \<Rightarrow> 'a \<Rightarrow> 'a list \<Rightarrow> 'a list" where
  "insort_cmp cmp x [] = [x]"
| "insort_cmp cmp x (y # ys) = (if cmp x y \<le> 0 then x # y # ys else y # insort_cmp cmp x ys)"

definition sort_cmp :: "('a \<Rightarrow> 'a \<Rightarrow> int) \<Rightarrow> 'a list \<Rightarrow> 'a list" where
  "sort_cmp cmp xs = foldr (insort_cmp cmp) xs []"

text \<open>
  A JavaScript \<^verbatim>\<open>Map\<close> is a list of entries in insertion order: \<^verbatim>\<open>get\<close> is
  \<open>map_of\<close>, \<^verbatim>\<open>values()\<close> lists the values in that order, and \<^verbatim>\<open>set\<close> replaces the
  value of a key in place or appends a new entry.
\<close>

fun map_set :: "'k \<Rightarrow> 'v \<Rightarrow> ('k \<times> 'v) list \<Rightarrow> ('k \<times> 'v) list" where
  "map_set k v [] = [(k, v)]"
| "map_set k v (p # ps) = (if fst p = k then (k, v) # ps else p # map_set k v ps)"

definition map_values :: "('k \<times> 'v) list \<Rightarrow> 'v list" where
  "map_values m = map snd m"

section \<open>The status classifier\<close>

text \<open>
  \<^verbatim>\<open>
  function calculateStatus(checkInTime: string): string {
    const [hours, minutes] = checkInTime.split(":").map(Number);
    const checkInMinutes = hours * 60 + minutes;
    if (checkInMinutes <= 9 * 60 + 30) { return "present"; }
    else if (checkInMinutes <= 12 * 60) { return "late"; }
    else { return "half-day"; }
  }
  \<close>
\<close>

definition calculateStatus :: "string \<Rightarrow> string" where
  "calculateStatus t =
     (let parts = map Number (split_str (CHR '':'') t);
          hours = nth_num parts 0;
          minutes = nth_num parts 1;
          checkInMinutes = num_add (num_mul hours (Some 60)) minutes
      in if num_le checkInMinutes (Some (9 * 60 + 30)) then ''present''
         else if num_le checkInMinutes (Some (12 * 60)) then ''late''
         else ''half-day'')"

text \<open>
  \<^verbatim>\<open>
  function calculateTotalHours(checkInTime: string, checkOutTime: string): string {
    const [inHours, inMinutes] = checkInTime.split(":").map(Number);
    const [outHours, outMinutes] = checkOutTime.split(":").map(Number);
    const inTotalMinutes = inHours * 60 + inMinutes;
    const outTotalMinutes = outHours * 60 + outMinutes;
    const diffMinutes = outTotalMinutes - inTotalMinutes;
    return (diffMinutes / 60).toFixed(2);
  }
  \<close>
\<close>

definition calculateTotalHours :: "string \<Rightarrow> string \<Rightarrow> string" where
  "calculateTotalHours t_in t_out =
     (let ins = map Number (split_str (CHR '':'') t_in);
          inHours = nth_num ins 0;
          inMinutes = nth_num ins 1;
          outs = map Number (split_str (CHR '':'') t_out);
          outHours = nth_num outs 0;
          outMinutes = nth_num outs 1;
          inTotalMinutes = num_add (num_mul inHours (Some 60)) inMinutes;
          outTotalMinutes = num_add (num_mul outHours (Some 60)) outMinutes;
          diffMinutes = num_sub outTotalMinutes inTotalMinutes
      in toFixed2 (num_div diffMinutes 60))"

text \<open>
  The status the check-out route writes, from the stored status and the hours worked
  (lines 241 to 244 of \<^verbatim>\<open>server/routes.ts\<close>):
  \<^verbatim>\<open>
  let status = existing.status;
  if (hoursWorked < 4) { status = "half-day"; }
  \<close>
\<close>

definition reconcileStatus :: "string \<Rightarrow> rat option \<Rightarrow> string" where
  "reconcileStatus existingStatus hoursWorked =
     (if num_lt hoursWorked 4 then ''half-day'' else existingStatus)"

section \<open>The records of the store\<close>

text \<open>
  The types of \<^verbatim>\<open>shared/schema.ts\<close>. \<^verbatim>\<open>User\<close> and \<^verbatim>\<open>Attendance\<close> are the rows of the
  tables \<^verbatim>\<open>users\<close> and \<^verbatim>\<open>attendance\<close>; the columns \<^verbatim>\<open>checkInTime\<close>,
  \<^verbatim>\<open>checkOutTime\<close> and \<^verbatim>\<open>totalHours\<close> may be \<^verbatim>\<open>null\<close>, and times, dates and
  decimals are strings.
  \<^verbatim>\<open>
  export type UserWithoutPassword = Omit<User, "password">;
  export type AttendanceWithUser = Attendance & { user?: UserWithoutPassword };
  \<close>
  \<^verbatim>\<open>InsertAttendance\<close> is \<^verbatim>\<open>Attendance\<close> without \<^verbatim>\<open>id\<close> and \<^verbatim>\<open>createdAt\<close>. So a user
  is the public profile extended by the password, an attendance record is the inserted
  fields extended by \<^verbatim>\<open>id\<close> and \<^verbatim>\<open>createdAt\<close>, and a joined record extends that by
  the optional \<^verbatim>\<open>user\<close>. Dates of creation are numbers of milliseconds.
\<close>

record UserWithoutPassword =
  id_user :: string
  name :: string
  email :: string
  role :: string
  employeeId :: string
  department :: string
  createdAt_user :: nat

record User = UserWithoutPassword +
  password :: string

record InsertAttendance =
  userId :: string
  date :: string
  checkInTime :: "string option"
  checkOutTime :: "string option"
  status :: string
  totalHours :: "string option"

record Attendance = InsertAttendance +
  id_att :: string
  createdAt_att :: nat

record AttendanceWithUser = Attendance +
  user :: "UserWithoutPassword option"

text \<open>The private fields of \<^verbatim>\<open>class MemStorage\<close>.\<close>

record MemStorage =
  users :: "(string \<times> User) list"
  attendance :: "(string \<times> Attendance) list"
  employeeCounter :: nat

section \<open>The storage methods\<close>

text \<open>\<^verbatim>\<open>const { password, ...rest } = user; return rest;\<close>\<close>

definition removePassword :: "User \<Rightarrow> UserWithoutPassword" where
  "removePassword u = UserWithoutPassword.truncate u"

definition getUser :: "MemStorage \<Rightarrow> string \<Rightarrow> User option" where
  "getUser st i = map_of (users st) i"

definition getAllEmployees :: "MemStorage \<Rightarrow> UserWithoutPassword list" where
  "getAllEmployees st =
     map removePassword (filter (\<lambda>u. role u = ''employee'') (map_values (users st)))"

definition getAttendanceById :: "MemStorage \<Rightarrow> string \<Rightarrow> Attendance option" where
  "getAttendanceById st i = map_of (attendance st) i"

definition getAttendanceByUserAndDate :: "MemStorage \<Rightarrow> string \<Rightarrow> string \<Rightarrow> Attendance option" where
  "getAttendanceByUserAndDate st uid d =
     find (\<lambda>record. userId record = uid \<and> date record = d) (map_values (attendance st))"

text \<open>
  \<^verbatim>\<open>createAttendance\<close> draws the identifier with \<^verbatim>\<open>randomUUID()\<close> and reads the clock;
  both are arguments here.
\<close>

definition createAttendance ::
  "MemStorage \<Rightarrow> InsertAttendance \<Rightarrow> string \<Rightarrow> nat \<Rightarrow> Attendance \<times> MemStorage" where
  "createAttendance st insertAttendance newId now =
     (let record = InsertAttendance.extend insertAttendance (Attendance.fields newId now)
      in (record, st\<lparr>attendance := map_set newId record (attendance st)\<rparr>))"

text \<open>
  \<^verbatim>\<open>updateAttendance(id, updates)\<close> stores \<^verbatim>\<open>{ ...record, ...updates }\<close>; the partial
  record \<^verbatim>\<open>updates\<close> is the function that overwrites the fields it holds.
\<close>

definition updateAttendance ::
  "MemStorage \<Rightarrow> string \<Rightarrow> (Attendance \<Rightarrow> Attendance) \<Rightarrow> Attendance option \<times> MemStorage" where
  "updateAttendance st i updates =
     (case map_of (attendance st) i of
        None \<Rightarrow> (None, st)
      | Some record \<Rightarrow>
          (let updated = updates record
           in (Some updated, st\<lparr>attendance := map_set i updated (attendance st)\<rparr>)))"

definition getUserAttendanceHistory ::
  "MemStorage \<Rightarrow> string \<Rightarrow> string \<Rightarrow> string \<Rightarrow> Attendance list" where
  "getUserAttendanceHistory st uid startDate endDate =
     sort_cmp (\<lambda>a b. localeCompare (date b) (date a))
       (filter (\<lambda>record. userId record = uid \<and> date record \<ge> startDate \<and> date record \<le> endDate)
          (map_values (attendance st)))"

text \<open>
  The join both joined views compute for a record:
  \<^verbatim>\<open>{ ...record, user: user ? removePassword(user) : undefined }\<close>.
\<close>

definition withUser :: "MemStorage \<Rightarrow> Attendance \<Rightarrow> AttendanceWithUser" where
  "withUser st record =
     Attendance.extend record
       (AttendanceWithUser.fields
          (case getUser st (userId record) of None \<Rightarrow> None | Some u \<Rightarrow> Some (removePassword u)))"

definition getAllAttendanceForDate :: "MemStorage \<Rightarrow> string \<Rightarrow> AttendanceWithUser list" where
  "getAllAttendanceForDate st d =
     (let records = filter (\<lambda>record. date record = d) (map_values (attendance st))
      in map (withUser st) records)"

text \<open>The optional \<^verbatim>\<open>employeeId\<close> restricts the report when it is truthy and not \<^verbatim>\<open>"all"\<close>.\<close>

definition getAttendanceReport ::
  "MemStorage \<Rightarrow> string \<Rightarrow> string \<Rightarrow> string option \<Rightarrow> AttendanceWithUser list" where
  "getAttendanceReport st startDate endDate employee =
     (let records = filter (\<lambda>record. date record \<ge> startDate \<and> date record \<le> endDate)
                      (map_values (attendance st));
          records = (case employee of
                       None \<Rightarrow> records
                     | Some e \<Rightarrow> if e \<noteq> [] \<and> e \<noteq> ''all''
                                then filter (\<lambda>record. userId record = e) records else records);
          records = sort_cmp (\<lambda>a b. localeCompare (date b) (date a)) records
      in map (withUser st) records)"

section \<open>The manager dashboard\<close>

text \<open>The shapes \<^verbatim>\<open>getManagerDashboardStats\<close> builds; every count is a JavaScript number.\<close>

record WeeklyTrendEntry =
  date_w :: string
  present_w :: int
  absent_w :: int
  late_w :: int

record DepartmentCount =
  present_d :: int
  absent_d :: int

record DepartmentStat = DepartmentCount +
  department_s :: string

record ManagerDashboardStats =
  totalEmployees :: int
  presentToday :: int
  absentToday :: int
  lateToday :: int
  absentEmployees :: "UserWithoutPassword list"
  weeklyTrend :: "WeeklyTrendEntry list"
  departmentStats :: "DepartmentStat list"

definition count_status :: "string \<Rightarrow> 'a InsertAttendance_scheme list \<Rightarrow> int" where
  "count_status s records = int (length (filter (\<lambda>r. status r = s) records))"

text \<open>
  The method reads the clock: \<open>today\<close> is \<^verbatim>\<open>format(new Date(), "yyyy-MM-dd")\<close> and
  \<open>week\<close> lists \<^verbatim>\<open>format(subDays(new Date(), i), "yyyy-MM-dd")\<close> for \<open>i\<close> from 6 down
  to 0. The three \<^verbatim>\<open>forEach\<close> loops over the department map are the three folds.
\<close>

definition getManagerDashboardStats ::
  "MemStorage \<Rightarrow> string \<Rightarrow> string list \<Rightarrow> ManagerDashboardStats" where
  "getManagerDashboardStats st today week =
     (let employees = getAllEmployees st;
          todayAttendance = getAllAttendanceForDate st today;
          presentToday' = int (length (filter
             (\<lambda>r. status r = ''present'' \<or> status r = ''late'' \<or> status r = ''half-day'')
             todayAttendance));
          absentToday' = int (length employees) - int (length todayAttendance)
             + int (length (filter (\<lambda>r. status r = ''absent'') todayAttendance));
          lateToday' = int (length (filter (\<lambda>r. status r = ''late'') todayAttendance));
          checkedInUserIds = set (map userId todayAttendance);
          absentEmployees' = filter (\<lambda>emp. id_user emp \<notin> checkedInUserIds) employees;
          weeklyTrend' = map
             (\<lambda>dateStr.
                (let records = getAllAttendanceForDate st dateStr
                 in \<lparr>date_w = dateStr,
                     present_w = count_status ''present'' records,
                     absent_w = count_status ''absent'' records
                        + (int (length employees) - int (length records)),
                     late_w = count_status ''late'' records\<rparr>))
             week;
          departmentMap = foldl
             (\<lambda>m emp. if map_of m (department emp) = None
                       then map_set (department emp) \<lparr>present_d = 0, absent_d = 0\<rparr> m else m)
             [] employees;
          departmentMap = foldl
             (\<lambda>m record.
                (case user record of
                   None \<Rightarrow> m
                 | Some u \<Rightarrow>
                     if department u = [] then m
                     else (case map_of m (department u) of
                             None \<Rightarrow> m
                           | Some dept \<Rightarrow>
                               if status record \<noteq> ''absent''
                               then map_set (department u) (dept\<lparr>present_d := present_d dept + 1\<rparr>) m
                               else map_set (department u) (dept\<lparr>absent_d := absent_d dept + 1\<rparr>) m)))
             departmentMap todayAttendance;
          departmentMap = foldl
             (\<lambda>m emp.
                if id_user emp \<notin> checkedInUserIds
                then (case map_of m (department emp) of
                        None \<Rightarrow> m
                      | Some dept \<Rightarrow> map_set (department emp) (dept\<lparr>absent_d := absent_d dept + 1\<rparr>) m)
                else m)
             departmentMap employees;
          departmentStats' = map
             (\<lambda>(dep, stats). DepartmentCount.extend stats (DepartmentStat.fields dep))
             departmentMap
      in \<lparr>totalEmployees = int (length employees),
          presentToday = presentToday',
          absentToday = absentToday',
          lateToday = lateToday',
          absentEmployees = absentEmployees',
          weeklyTrend = weeklyTrend',
          departmentStats = departmentStats'\<rparr>)"

section \<open>The attendance routes\<close>

text \<open>
  Each route answers either with a rejection (status 400 and a message) or with a body.
  The rejections of \<^verbatim>\<open>server/routes.ts\<close>, under the names the specification gives them:
  \<^item> \<open>AlreadyCheckedIn\<close>: \<^verbatim>\<open>"Already checked in today"\<close>;
  \<^item> \<open>NotCheckedIn\<close>: \<^verbatim>\<open>"You haven't checked in today"\<close>;
  \<^item> \<open>AlreadyCheckedOut\<close>: \<^verbatim>\<open>"Already checked out today"\<close>;
  \<^item> \<open>DatesRequired\<close>: \<^verbatim>\<open>"Start date and end date are required"\<close>.

  The session supplies \<open>uid\<close> (the routes run behind \<^verbatim>\<open>requireAuth\<close> or
  \<^verbatim>\<open>requireManager\<close>), the clock supplies \<open>today\<close> (\<^verbatim>\<open>format(new Date(), "yyyy-MM-dd")\<close>)
  and the time of day (\<^verbatim>\<open>format(now, "HH:mm:ss")\<close>). A route returns its answer and
  the storage it leaves.

  Every route wraps its body in \<^verbatim>\<open>try\<close> and answers status 500 from the \<^verbatim>\<open>catch\<close>.
  In the check-in, check-out and report routes nothing throws: the methods of
  \<^verbatim>\<open>MemStorage\<close> they call do not, and \<^verbatim>\<open>format\<close> is applied to the clock only. The
  history route applies \<^verbatim>\<open>format\<close> to a date parsed from the query, which throws on an
  Invalid Date; its \<^verbatim>\<open>catch\<close> answers
  \<^item> \<open>HistoryFailed\<close>: status 500, \<^verbatim>\<open>"Failed to get attendance history"\<close>.
\<close>

datatype error =
  AlreadyCheckedIn | NotCheckedIn | AlreadyCheckedOut | DatesRequired | HistoryFailed

text \<open>\<^verbatim>\<open>app.post("/api/attendance/checkin", requireAuth, ...)\<close>\<close>

definition post_checkin ::
  "MemStorage \<Rightarrow> string \<Rightarrow> string \<Rightarrow> string \<Rightarrow> string \<Rightarrow> nat
     \<Rightarrow> (error + Attendance option) \<times> MemStorage" where
  "post_checkin st uid today checkInTime' newId now =
     (case getAttendanceByUserAndDate st uid today of
        Some existing \<Rightarrow>
          if truthy (checkInTime existing) then (Inl AlreadyCheckedIn, st)
          else
            (let status' = calculateStatus checkInTime';
                 (updated, st') = updateAttendance st (id_att existing)
                    (\<lambda>r. r\<lparr>checkInTime := Some checkInTime', status := status'\<rparr>)
             in (Inr updated, st'))
      | None \<Rightarrow>
          (let status' = calculateStatus checkInTime';
               (attendance', st') = createAttendance st
                  \<lparr>userId = uid, date = today, checkInTime = Some checkInTime',
                   checkOutTime = None, status = status', totalHours = None\<rparr> newId now
           in (Inr (Some attendance'), st')))"

text \<open>\<^verbatim>\<open>app.post("/api/attendance/checkout", requireAuth, ...)\<close>\<close>

definition post_checkout ::
  "MemStorage \<Rightarrow> string \<Rightarrow> string \<Rightarrow> string \<Rightarrow> (error + Attendance option) \<times> MemStorage" where
  "post_checkout st uid today checkOutTime' =
     (case getAttendanceByUserAndDate st uid today of
        None \<Rightarrow> (Inl NotCheckedIn, st)
      | Some existing \<Rightarrow>
          if \<not> truthy (checkInTime existing) then (Inl NotCheckedIn, st)
          else if truthy (checkOutTime existing) then (Inl AlreadyCheckedOut, st)
          else
            (let totalHours' = calculateTotalHours (the (checkInTime existing)) checkOutTime';
                 hoursWorked = parseFloat totalHours';
                 status' = reconcileStatus (status existing) hoursWorked;
                 (updated, st') = updateAttendance st (id_att existing)
                    (\<lambda>r. r\<lparr>checkOutTime := Some checkOutTime', totalHours := Some totalHours',
                             status := status'\<rparr>)
             in (Inr updated, st')))"

text \<open>
  \<^verbatim>\<open>app.get("/api/attendance/report", requireManager, ...)\<close>. The summary's
  \<^verbatim>\<open>totalHours\<close>, a floating-point sum of parsed texts, is left out of the model.
\<close>

record ReportSummary =
  totalRecords :: int
  presentCount :: int
  absentCount :: int
  lateCount :: int
  halfDayCount :: int

definition get_report ::
  "MemStorage \<Rightarrow> string option \<Rightarrow> string option \<Rightarrow> string option
     \<Rightarrow> error + AttendanceWithUser list \<times> ReportSummary" where
  "get_report st startDate endDate employee =
     (if \<not> truthy startDate \<or> \<not> truthy endDate then Inl DatesRequired
      else
        (let records = getAttendanceReport st (the startDate) (the endDate) employee;
             summary = \<lparr>totalRecords = int (length records),
                        presentCount = count_status ''present'' records,
                        absentCount = count_status ''absent'' records,
                        lateCount = count_status ''late'' records,
                        halfDayCount = count_status ''half-day'' records\<rparr>
         in Inr (records, summary)))"

section \<open>The history of a month\<close>

text \<open>
  \<^verbatim>\<open>getUserMonthlySummary\<close> and the history route both turn a month into a range:
  \<^verbatim>\<open>
  const monthStart = startOfMonth(new Date(month + "-01"));
  const monthEnd = endOfMonth(monthStart);
  const startDate = format(monthStart, "yyyy-MM-dd");
  const endDate = format(monthEnd, "yyyy-MM-dd");
  \<close>
  The \<^verbatim>\<open>Date\<close> constructor and date-fns are not code of this repository, and what they
  compute depends on the engine and on the time zone of the server. What these four
  lines give for a month is the argument \<open>month_bounds\<close>: the two texts, or \<open>None\<close>
  when \<^verbatim>\<open>format\<close> throws its \<^verbatim>\<open>RangeError\<close>, which it does on an Invalid Date, that
  is when \<^verbatim>\<open>new Date\<close> cannot parse the month followed by \<^verbatim>\<open>-01\<close>.
\<close>

text \<open>
  \<^verbatim>\<open>AttendanceSummary\<close> of \<^verbatim>\<open>shared/schema.ts\<close>, without \<^verbatim>\<open>totalHours\<close>, a floating-point
  sum of parsed texts that is left out of the model.
\<close>

record AttendanceSummary =
  presentDays :: int
  absentDays :: int
  lateDays :: int
  halfDays :: int

definition getUserMonthlySummary ::
  "(string \<Rightarrow> (string \<times> string) option) \<Rightarrow> MemStorage \<Rightarrow> string \<Rightarrow> string
     \<Rightarrow> AttendanceSummary option" where
  "getUserMonthlySummary month_bounds st uid month =
     (case month_bounds month of
        None \<Rightarrow> None
      | Some (startDate, endDate) \<Rightarrow>
          (let records = getUserAttendanceHistory st uid startDate endDate
           in Some \<lparr>presentDays = count_status ''present'' records,
                    absentDays = count_status ''absent'' records,
                    lateDays = count_status ''late'' records,
                    halfDays = count_status ''half-day'' records\<rparr>))"

text \<open>
  \<^verbatim>\<open>app.get("/api/attendance/my-history", requireAuth, ...)\<close>. The month is
  \<^verbatim>\<open>req.query.month\<close> when that is truthy and \<^verbatim>\<open>format(new Date(), "yyyy-MM")\<close>, here
  \<open>thisMonth\<close>, otherwise. An exception in the body, from the route's own \<^verbatim>\<open>format\<close>
  or from \<^verbatim>\<open>getUserMonthlySummary\<close>, is caught and answered with status 500.
\<close>

definition get_my_history ::
  "(string \<Rightarrow> (string \<times> string) option) \<Rightarrow> MemStorage \<Rightarrow> string \<Rightarrow> string option \<Rightarrow> string
     \<Rightarrow> error + Attendance list \<times> AttendanceSummary" where
  "get_my_history month_bounds st uid month_query thisMonth =
     (let month = (if truthy month_query then the month_query else thisMonth)
      in case month_bounds month of
           None \<Rightarrow> Inl HistoryFailed
         | Some (startDate, endDate) \<Rightarrow>
             (let history = getUserAttendanceHistory st uid startDate endDate
              in case getUserMonthlySummary month_bounds st uid month of
                   None \<Rightarrow> Inl HistoryFailed
                 | Some summary \<Rightarrow> Inr (history, summary)))"

text \<open>
  What the four lines give on a server whose time zone is UTC, for a month written
  \<^verbatim>\<open>YYYY-MM\<close>. ECMAScript reads \<^verbatim>\<open>YYYY-MM-01\<close> as midnight UTC of that day, and as an
  Invalid Date when the month is not between 01 and 12; date-fns then gives the first
  and the last day of the month. For text of another shape ECMAScript leaves the parse
  to the engine; this function answers \<open>None\<close> there, and the examples below apply it
  to text of the shape \<^verbatim>\<open>YYYY-MM\<close> only.
\<close>

definition days_in_month :: "nat \<Rightarrow> nat \<Rightarrow> nat" where
  "days_in_month y m =
     (if m = 2 then (if y mod 4 = 0 \<and> (y mod 100 \<noteq> 0 \<or> y mod 400 = 0) then 29 else 28)
      else if m = 4 \<or> m = 6 \<or> m = 9 \<or> m = 11 then 30 else 31)"

definition utc_month_bounds :: "string \<Rightarrow> (string \<times> string) option" where
  "utc_month_bounds month =
     (if length month = 7 \<and> month ! 4 = CHR ''-''
         \<and> list_all is_digit (take 4 month) \<and> list_all is_digit (drop 5 month)
      then (let y = digits_val (take 4 month); m = digits_val (drop 5 month)
            in if 1 \<le> m \<and> m \<le> 12
               then Some (month @ ''-01'', month @ ''-'' @ pad2 (digits_of (days_in_month y m)))
               else None)
      else None)"

section \<open>Sequences of requests and the invariants of the store\<close>

datatype request =
    CheckIn string string string string nat
  | CheckOut string string string

fun handle :: "MemStorage \<Rightarrow> request \<Rightarrow> MemStorage" where
  "handle st (CheckIn uid today t newId now) = snd (post_checkin st uid today t newId now)"
| "handle st (CheckOut uid today t) = snd (post_checkout st uid today t)"

definition run :: "MemStorage \<Rightarrow> request list \<Rightarrow> MemStorage" where
  "run st reqs = foldl handle st reqs"

text \<open>
  The attendance map as \<^verbatim>\<open>MemStorage\<close> keeps it: keys are distinct (it is a
  \<^verbatim>\<open>Map\<close>) and every record is stored under its own \<^verbatim>\<open>id\<close> (the seed data and
  \<^verbatim>\<open>createAttendance\<close> store it so).
\<close>

definition attendance_map_ok :: "MemStorage \<Rightarrow> bool" where
  "attendance_map_ok st =
     (distinct (map fst (attendance st)) \<and> list_all (\<lambda>(k, r). id_att r = k) (attendance st))"

definition one_record_per_day :: "MemStorage \<Rightarrow> bool" where
  "one_record_per_day st = distinct (map (\<lambda>r. (userId r, date r)) (map_values (attendance st)))"

definition checkout_implies_checkin :: "MemStorage \<Rightarrow> bool" where
  "checkout_implies_checkin st =
     list_all (\<lambda>r. truthy (checkOutTime r) \<longrightarrow> truthy (checkInTime r)) (map_values (attendance st))"

text \<open>The same with a time counted as set when it is not \<^verbatim>\<open>null\<close>.\<close>

definition checkout_implies_checkin_nonnull :: "MemStorage \<Rightarrow> bool" where
  "checkout_implies_checkin_nonnull st =
     list_all (\<lambda>r. checkOutTime r \<noteq> None \<longrightarrow> checkInTime r \<noteq> None)
       (map_values (attendance st))"

text \<open>The records a user has for a day, in the order of the map.\<close>

definition records_of_day :: "MemStorage \<Rightarrow> string \<Rightarrow> string \<Rightarrow> Attendance list" where
  "records_of_day st uid d =
     filter (\<lambda>r. userId r = uid \<and> date r = d) (map_values (attendance st))"

definition store_inv :: "MemStorage \<Rightarrow> bool" where
  "store_inv st = (attendance_map_ok st \<and> one_record_per_day st \<and> checkout_implies_checkin st)"

section \<open>Stores that differ in passwords only\<close>

text \<open>
  The storage in which every user's password is replaced by a value chosen from the key
  and the user; every storage that differs from \<open>st\<close> at most in the values of the
  passwords is of this form.
\<close>

definition set_passwords :: "(string \<Rightarrow> User \<Rightarrow> string) \<Rightarrow> MemStorage \<Rightarrow> MemStorage" where
  "set_passwords f st = st\<lparr>users := map (\<lambda>(k, u). (k, u\<lparr>password := f k u\<rparr>)) (users st)\<rparr>"

section \<open>A small store\<close>

definition ex_user :: "string \<Rightarrow> string \<Rightarrow> string \<Rightarrow> User" where
  "ex_user i r d = \<lparr>id_user = i, name = ''N'' @ i, email = i @ ''@company.com'', role = r,
     employeeId = ''EMP'' @ i, department = d, createdAt_user = 0, password = ''password123''\<rparr>"

definition ex_att ::
  "string \<Rightarrow> string \<Rightarrow> string \<Rightarrow> string option \<Rightarrow> string option \<Rightarrow> string \<Rightarrow> string option
     \<Rightarrow> Attendance" where
  "ex_att i u d ci co s th = \<lparr>userId = u, date = d, checkInTime = ci, checkOutTime = co,
     status = s, totalHours = th, id_att = i, createdAt_att = 0\<rparr>"

text \<open>
  Five employees and a manager. On 2024-03-04 three employees have a record (two
  \<^verbatim>\<open>present\<close>, one \<^verbatim>\<open>absent\<close>); on 2024-03-05 one employee is \<^verbatim>\<open>late\<close>, and one
  record belongs to a user the directory does not know.
\<close>

definition example_storage :: MemStorage where
  "example_storage = \<lparr>
     users = [(''u1'', ex_user ''u1'' ''employee'' ''Engineering''),
              (''u2'', ex_user ''u2'' ''employee'' ''Product''),
              (''u3'', ex_user ''u3'' ''employee'' ''Engineering''),
              (''u4'', ex_user ''u4'' ''employee'' ''Design''),
              (''u5'', ex_user ''u5'' ''employee'' ''Marketing''),
              (''u6'', ex_user ''u6'' ''manager'' ''Management'')],
     attendance =
       [(''a1'', ex_att ''a1'' ''u1'' ''2024-03-04'' (Some ''09:00:00'') (Some ''17:30:00'')
                   ''present'' (Some ''8.50'')),
        (''a2'', ex_att ''a2'' ''u2'' ''2024-03-04'' (Some ''09:15:00'') None ''present'' None),
        (''a3'', ex_att ''a3'' ''u3'' ''2024-03-04'' None None ''absent'' None),
        (''a4'', ex_att ''a4'' ''u1'' ''2024-03-05'' (Some ''10:00:00'') None ''late'' None),
        (''a5'', ex_att ''a5'' ''u9'' ''2024-03-05'' (Some ''10:00:00'') None ''late'' None)],
     employeeCounter = 6\<rparr>"

section \<open>Digits and times of day\<close>

lemma is_digit_digit_char: "d < 10 \<Longrightarrow> is_digit (digit_char d)"
  by (simp add: is_digit_def digit_char_def)

lemma digit_val_digit_char: "d < 10 \<Longrightarrow> digit_val (digit_char d) = d"
  by (simp add: digit_val_def digit_char_def)

lemma digits_val_snoc: "digits_val (s @ [c]) = 10 * digits_val s + digit_val c"
  by (simp add: digits_val_def)

lemma digits_of_all_digits: "list_all is_digit (digits_of n)"
proof (induction n rule: digits_of.induct)
  case (1 n)
  show ?case
  proof (cases "n < 10")
    case True
    then show ?thesis by (subst digits_of.simps) (simp add: is_digit_digit_char)
  next
    case False
    with 1 show ?thesis by (subst digits_of.simps) (simp add: is_digit_digit_char)
  qed
qed

lemma digits_val_digits_of: "digits_val (digits_of n) = n"
proof (induction n rule: digits_of.induct)
  case (1 n)
  show ?case
  proof (cases "n < 10")
    case True
    then show ?thesis
      by (subst digits_of.simps) (simp add: digits_val_def digit_val_digit_char)
  next
    case False
    with 1 have "digits_val (digits_of (n div 10)) = n div 10" by simp
    with False show ?thesis
      by (subst digits_of.simps) (simp add: digits_val_snoc digit_val_digit_char)
  qed
qed

lemma is_digit_zero: "is_digit (CHR ''0'')"
  by (simp add: is_digit_def)

lemma digits_val_zeros: "digits_val (replicate k (CHR ''0'') @ s) = digits_val s"
proof -
  have "foldl (\<lambda>acc c. 10 * acc + digit_val c) 0 (replicate k (CHR ''0'')) = 0"
    by (induction k) (simp_all add: digit_val_def)
  then show ?thesis by (simp add: digits_val_def)
qed

lemma pad2_all_digits: "list_all is_digit (pad2 (digits_of n))"
  using digits_of_all_digits [of n] by (auto simp: pad2_def list_all_iff is_digit_zero)

lemma Number_pad2: "Number (pad2 (digits_of n)) = Some (int n)"
  using pad2_all_digits [of n]
  by (simp add: Number_def pad2_def digits_val_zeros digits_val_digits_of)

lemma not_colon_digits: "list_all is_digit s \<Longrightarrow> CHR '':'' \<notin> set s"
  by (auto simp: list_all_iff is_digit_def)

lemma split_str_field:
  "c \<notin> set a \<Longrightarrow> split_str c (a @ c # rest) = a # split_str c rest"
  by (induction a) auto

lemma split_str_last: "c \<notin> set a \<Longrightarrow> split_str c a = [a]"
  by (induction a) auto

lemma split_time_str:
  "split_str (CHR '':'') (time_str h m s)
     = [pad2 (digits_of h), pad2 (digits_of m), pad2 (digits_of s)]"
proof -
  have nc: "\<And>n. CHR '':'' \<notin> set (pad2 (digits_of n))"
    by (rule not_colon_digits) (rule pad2_all_digits)
  show ?thesis
    unfolding time_str_def
    by (simp add: split_str_field [OF nc] split_str_last [OF nc])
qed

lemma parts_time_str:
  "map Number (split_str (CHR '':'') (time_str h m s)) = [Some (int h), Some (int m), Some (int s)]"
  by (simp add: split_time_str Number_pad2)

lemma calculateStatus_time_str:
  "calculateStatus (time_str h m s) =
     (if h * 60 + m \<le> 570 then ''present'' else if h * 60 + m \<le> 720 then ''late'' else ''half-day'')"
  by (simp add: calculateStatus_def parts_time_str nth_num_def num_add_def num_mul_def num_le_def)

text \<open>
  C1. For a check-in time written \<^verbatim>\<open>HH:MM:SS\<close>, \<open>calculateStatus\<close> answers
  \<^verbatim>\<open>present\<close> when hours*60 + minutes is at most 570 (09:30), \<^verbatim>\<open>late\<close> when it
  is above 570 and at most 720 (12:00), and \<^verbatim>\<open>half-day\<close> above 720; the seconds play
  no part. The boundary times 09:30:00 and 12:00:00 are \<^verbatim>\<open>present\<close> and \<^verbatim>\<open>late\<close>.
\<close>

theorem C1_calculateStatus_brackets:
  "(h * 60 + m \<le> 570 \<longrightarrow> calculateStatus (time_str h m s) = ''present'')
   \<and> (570 < h * 60 + m \<and> h * 60 + m \<le> 720 \<longrightarrow> calculateStatus (time_str h m s) = ''late'')
   \<and> (720 < h * 60 + m \<longrightarrow> calculateStatus (time_str h m s) = ''half-day'')
   \<and> calculateStatus ''09:30:00'' = ''present''
   \<and> calculateStatus ''12:00:00'' = ''late''"
proof -
  have a: "time_str 9 30 0 = ''09:30:00''"
    by code_simp
  have b: "time_str 12 0 0 = ''12:00:00''"
    by code_simp
  have "calculateStatus (time_str 9 30 0) = ''present''"
    by (simp add: calculateStatus_time_str)
  moreover have "calculateStatus (time_str 12 0 0) = ''late''"
    by (simp add: calculateStatus_time_str)
  ultimately show ?thesis
    by (simp add: calculateStatus_time_str a [symmetric] b [symmetric])
qed

theorem C1_calculateStatus_brackets_witness:
  "calculateStatus (time_str 8 59 59) = ''present''
   \<and> calculateStatus (time_str 9 31 0) = ''late''
   \<and> calculateStatus (time_str 12 1 0) = ''half-day''
   \<and> time_str 8 59 59 = ''08:59:59''"
proof -
  have t: "time_str 8 59 59 = ''08:59:59''"
    by code_simp
  show ?thesis
    using C1_calculateStatus_brackets [of 8 59 59] C1_calculateStatus_brackets [of 9 31 0]
      C1_calculateStatus_brackets [of 12 1 0] t
    by simp
qed

section \<open>The duration of a day\<close>

lemma digits_val_append:
  "digits_val (a @ b) = digits_val a * 10 ^ length b + digits_val b"
proof (induction b rule: rev_induct)
  case Nil
  then show ?case by (simp add: digits_val_def)
next
  case (snoc c b)
  have "digits_val (a @ b @ [c]) = 10 * digits_val (a @ b) + digit_val c"
    using digits_val_snoc [of "a @ b" c] by simp
  with snoc show ?case by (simp add: digits_val_snoc algebra_simps)
qed

lemma not_digit_point: "\<not> is_digit (CHR ''.'')"
  by (simp add: is_digit_def)

lemma not_digit_sign: "is_digit c \<Longrightarrow> c \<noteq> CHR ''-'' \<and> c \<noteq> CHR ''+''"
  by (auto simp: is_digit_def)

lemma takeWhile_digits:
  "list_all is_digit a \<Longrightarrow> takeWhile is_digit (a @ CHR ''.'' # b) = a"
  by (induction a) (simp_all add: not_digit_point)

lemma dropWhile_digits:
  "list_all is_digit a \<Longrightarrow> dropWhile is_digit (a @ CHR ''.'' # b) = CHR ''.'' # b"
  by (induction a) (simp_all add: not_digit_point)

lemma takeWhile_all: "list_all is_digit b \<Longrightarrow> takeWhile is_digit b = b"
  by (induction b) simp_all

lemma parseFloat_decimal:
  assumes a: "list_all is_digit a" and ne: "a \<noteq> []" and b: "list_all is_digit b"
  shows "parseFloat (a @ CHR ''.'' # b)
           = Some (of_nat (digits_val a) + of_nat (digits_val b) / 10 ^ length b)"
proof -
  from ne obtain c cs where acs: "a = c # cs" by (cases a) auto
  with a have "is_digit c" by simp
  then have c: "c \<noteq> CHR ''-''" "c \<noteq> CHR ''+''" using not_digit_sign by auto
  have n: "(case a @ CHR ''.'' # b of [] \<Rightarrow> False | c # cs \<Rightarrow> c = CHR ''-'') = False"
    using c by (simp add: acs)
  have r: "(case a @ CHR ''.'' # b of [] \<Rightarrow> []
            | c # cs \<Rightarrow> if c = CHR ''-'' \<or> c = CHR ''+'' then cs else a @ CHR ''.'' # b)
           = a @ CHR ''.'' # b"
    using c by (simp add: acs)
  show ?thesis
    unfolding parseFloat_def
    by (simp only: n r Let_def takeWhile_digits [OF a] dropWhile_digits [OF a])
       (simp add: ne takeWhile_all [OF b])
qed

lemma parseFloat_minus_decimal:
  assumes a: "list_all is_digit a" and ne: "a \<noteq> []" and b: "list_all is_digit b"
  shows "parseFloat (CHR ''-'' # a @ CHR ''.'' # b)
           = Some (- (of_nat (digits_val a) + of_nat (digits_val b) / 10 ^ length b))"
  unfolding parseFloat_def
  using ne by (simp add: takeWhile_digits [OF a] dropWhile_digits [OF a] takeWhile_all [OF b])


lemma digits_ge3:
  fixes n :: nat
  defines "m \<equiv> (if length (digits_of n) \<le> 2 then replicate (3 - length (digits_of n)) (CHR ''0'') @ digits_of n else digits_of n)"
  shows "list_all is_digit m \<and> 3 \<le> length m \<and> digits_val m = n"
  using digits_of_all_digits [of n]
  by (auto simp: m_def list_all_iff is_digit_zero digits_val_zeros digits_val_digits_of)

lemma split_last2:
  assumes "list_all is_digit m" "3 \<le> length m"
  shows "list_all is_digit (take (length m - 2) m) \<and> take (length m - 2) m \<noteq> []
         \<and> list_all is_digit (drop (length m - 2) m) \<and> length (drop (length m - 2) m) = 2
         \<and> of_nat (digits_val (take (length m - 2) m)) + of_nat (digits_val (drop (length m - 2) m)) / 10 ^ 2
             = (of_nat (digits_val m) :: rat) / 100"
proof -
  let ?a = "take (length m - 2) m" and ?b = "drop (length m - 2) m"
  have ab: "m = ?a @ ?b" by simp
  have l: "length ?b = 2" using assms(2) by simp
  have "digits_val m = digits_val ?a * 10 ^ length ?b + digits_val ?b"
    using digits_val_append [of ?a ?b] by simp
  then have v: "digits_val m = digits_val ?a * 100 + digits_val ?b" by (simp only: l) simp
  have d: "list_all is_digit ?a" "list_all is_digit ?b"
    using assms(1) by (auto simp: list_all_iff dest: in_set_takeD in_set_dropD)
  have ne: "?a \<noteq> []" using assms(2) by auto
  have "(of_nat (digits_val m) :: rat) / 100 = of_nat (digits_val ?a) + of_nat (digits_val ?b) / 10 ^ 2"
    by (simp add: v)
  with d ne l show ?thesis by simp
qed

lemma parseFloat_toFixed2:
  "parseFloat (toFixed2 (Some q))
     = Some ((if q < 0 then - 1 else 1) * of_nat (nat \<lfloor>\<bar>q\<bar> * 100 + 1 / 2\<rfloor>) / 100)"
proof -
  define n where "n = nat \<lfloor>\<bar>q\<bar> * 100 + 1 / 2\<rfloor>"
  define m where "m = (if length (digits_of n) \<le> 2 then replicate (3 - length (digits_of n)) (CHR ''0'') @ digits_of n else digits_of n)"
  have m: "list_all is_digit m" "3 \<le> length m" "digits_val m = n"
    using digits_ge3 [of n] by (simp_all add: m_def)
  note s = split_last2 [OF m(1) m(2)]
  have tf: "toFixed2 (Some q) = (if q < 0 then ''-'' else []) @ take (length m - 2) m @ CHR ''.'' # drop (length m - 2) m"
    unfolding toFixed2_def option.case Let_def n_def [symmetric] m_def [symmetric] by simp
  show ?thesis
  proof (cases "q < 0")
    case True
    have "parseFloat (toFixed2 (Some q)) = Some (- (of_nat n / 100))"
      using parseFloat_minus_decimal [of "take (length m - 2) m" "drop (length m - 2) m"] s True m(3)
      by (simp add: tf)
    with True show ?thesis by (simp add: n_def)
  next
    case False
    have "parseFloat (toFixed2 (Some q)) = Some (of_nat n / 100)"
      using parseFloat_decimal [of "take (length m - 2) m" "drop (length m - 2) m"] s False m(3)
      by (simp add: tf)
    with False show ?thesis by (simp add: n_def)
  qed
qed

lemma floor_hundredths: "\<lfloor>\<bar>rat_of_int d / 60\<bar> * 100 + 1 / 2\<rfloor> = (10 * \<bar>d\<bar> + 3) div 6"
proof -
  have "\<bar>rat_of_int d / 60\<bar> * 100 + 1 / 2 = rat_of_int (10 * \<bar>d\<bar> + 3) / rat_of_int 6"
    by (simp add: field_simps)
  then show ?thesis by (simp only: floor_divide_of_int_eq)
qed

lemma calculateTotalHours_time_str:
  "calculateTotalHours (time_str h1 m1 s1) (time_str h2 m2 s2)
     = toFixed2 (Some (of_int (int (h2 * 60 + m2) - int (h1 * 60 + m1)) / 60))"
  by (simp add: calculateTotalHours_def parts_time_str nth_num_def num_add_def num_mul_def
      num_sub_def num_div_def)


lemma hundredths_near:
  fixes d :: int
  defines "k \<equiv> (10 * \<bar>d\<bar> + 3) div 6"
  shows "\<bar>rat_of_int (sgn d * k) / 100 - rat_of_int d / 60\<bar> \<le> 1 / 300"
proof -
  have i: "\<bar>6 * (sgn d * k) - 10 * d\<bar> \<le> 2"
    unfolding k_def by (cases "d < 0"; cases "d = 0"; simp add: sgn_if; presburger)
  have "rat_of_int (sgn d * k) / 100 - rat_of_int d / 60
          = rat_of_int (6 * (sgn d * k) - 10 * d) / 600"
    by (simp add: field_simps)
  then have "\<bar>rat_of_int (sgn d * k) / 100 - rat_of_int d / 60\<bar>
          = rat_of_int \<bar>6 * (sgn d * k) - 10 * d\<bar> / 600"
    by (simp only: abs_divide of_int_abs)
  also have "\<dots> \<le> rat_of_int 2 / 600"
    using i by (simp only: divide_right_mono of_int_le_iff)
  finally show ?thesis by simp
qed

lemma parseFloat_hours:
  "parseFloat (toFixed2 (Some (rat_of_int d / 60)))
     = Some (rat_of_int (sgn d * ((10 * \<bar>d\<bar> + 3) div 6)) / 100)"
proof -
  have k: "0 \<le> (10 * \<bar>d\<bar> + 3) div 6" by simp
  have neg: "(rat_of_int d / 60 < 0) = (d < 0)" by simp
  have "rat_of_nat (nat ((10 * \<bar>d\<bar> + 3) div 6)) = rat_of_int ((10 * \<bar>d\<bar> + 3) div 6)"
    using k by (simp only: of_nat_nat)
  moreover have "d = 0 \<Longrightarrow> (10 * \<bar>d\<bar> + 3) div 6 = 0" by simp
  ultimately show ?thesis
    by (simp only: parseFloat_toFixed2 floor_hundredths neg) (auto simp: sgn_if)
qed

text \<open>
  C2, as amended. For check-in and check-out times written \<^verbatim>\<open>HH:MM:SS\<close>,
  \<open>calculateTotalHours\<close> returns \<^verbatim>\<open>toFixed(2)\<close> of the difference in minutes divided
  by 60: the difference in hours rounded to the nearest hundredth (the result is within
  1/300 of the exact quotient, so above it as often as below it), not truncated. The
  hundredths are \<open>(10 * \<bar>d\<bar> + 3) div 6\<close> with the sign of the difference \<open>d\<close>. From
  09:00:00 to 17:30:00 the result is \<^verbatim>\<open>8.50\<close>; an interval of one minute gives
  \<^verbatim>\<open>0.02\<close>; a negative difference is not guarded and gives a negative result.
\<close>

theorem C2_calculateTotalHours_rounds:
  "(let d = int (h2 * 60 + m2) - int (h1 * 60 + m1);
        out = calculateTotalHours (time_str h1 m1 s1) (time_str h2 m2 s2);
        r = rat_of_int (sgn d * ((10 * \<bar>d\<bar> + 3) div 6)) / 100
    in out = toFixed2 (Some (rat_of_int d / 60))
       \<and> parseFloat out = Some r
       \<and> \<bar>r - rat_of_int d / 60\<bar> \<le> 1 / 300
       \<and> (d < 0 \<longrightarrow> r < 0))
   \<and> calculateTotalHours ''09:00:00'' ''17:30:00'' = ''8.50''
   \<and> calculateTotalHours ''09:00:00'' ''09:01:00'' = ''0.02''
   \<and> calculateTotalHours ''09:01:00'' ''09:00:00'' = ''-0.02''"
proof -
  define d where "d = int (h2 * 60 + m2) - int (h1 * 60 + m1)"
  define r where "r = rat_of_int (sgn d * ((10 * \<bar>d\<bar> + 3) div 6)) / 100"
  have a: "calculateTotalHours (time_str h1 m1 s1) (time_str h2 m2 s2)
             = toFixed2 (Some (rat_of_int d / 60))"
    unfolding d_def by (rule calculateTotalHours_time_str)
  have b: "parseFloat (toFixed2 (Some (rat_of_int d / 60))) = Some r"
    unfolding r_def by (rule parseFloat_hours)
  have c: "\<bar>r - rat_of_int d / 60\<bar> \<le> 1 / 300"
    unfolding r_def by (rule hundredths_near)
  have "0 < (10 * \<bar>d\<bar> + 3) div 6" if "d < 0"
    using that by presburger
  then have e: "d < 0 \<longrightarrow> r < 0"
    unfolding r_def by (auto simp: sgn_if)
  have x: "calculateTotalHours ''09:00:00'' ''17:30:00'' = ''8.50''" by code_simp
  have y: "calculateTotalHours ''09:00:00'' ''09:01:00'' = ''0.02''" by code_simp
  have z: "calculateTotalHours ''09:01:00'' ''09:00:00'' = ''-0.02''" by code_simp
  from a b c e x y z show ?thesis
    unfolding Let_def d_def [symmetric] r_def [symmetric] by simp
qed

text \<open>The amended C2 at a check-out one minute before the check-in.\<close>

theorem C2_calculateTotalHours_rounds_witness:
  "int (9 * 60 + 0) - int (9 * 60 + 1) < 0
   \<and> parseFloat (calculateTotalHours (time_str 9 1 0) (time_str 9 0 0)) = Some (- 1 / 50)
   \<and> (- 1 / 50 :: rat) < 0"
proof -
  have d: "int (9 * 60 + 0) - int (9 * 60 + 1) = - 1" by simp
  from C2_calculateTotalHours_rounds [of 9 0 9 1 0 0, unfolded Let_def d]
  have "parseFloat (calculateTotalHours (time_str 9 1 0) (time_str 9 0 0))
          = Some (rat_of_int (sgn (- 1) * ((10 * \<bar>- 1\<bar> + 3) div 6)) / 100)"
    and "(- 1 :: int) < 0 \<longrightarrow> rat_of_int (sgn (- 1) * ((10 * \<bar>- 1\<bar> + 3) div 6)) / 100 < 0"
    by blast+
  then show ?thesis by (simp add: d)
qed

text \<open>
  C2 as stated fails: for an interval of one minute \<open>floor (hours * 100) / 100\<close> is
  0.01, and \<open>calculateTotalHours\<close> returns \<^verbatim>\<open>0.02\<close>.
\<close>

theorem C2_truncation_counterexample:
  "calculateTotalHours ''09:00:00'' ''09:01:00'' = ''0.02''
   \<and> parseFloat (calculateTotalHours ''09:00:00'' ''09:01:00'') = Some (2 / 100)
   \<and> rat_of_int \<lfloor>(1 / 60 :: rat) * 100\<rfloor> / 100 = 1 / 100
   \<and> parseFloat (calculateTotalHours ''09:00:00'' ''09:01:00'')
        \<noteq> Some (rat_of_int \<lfloor>(1 / 60 :: rat) * 100\<rfloor> / 100)"
proof -
  have a: "calculateTotalHours ''09:00:00'' ''09:01:00'' = ''0.02''" by code_simp
  have b: "parseFloat ''0.02'' = Some (2 / 100)" by code_simp
  have c: "\<lfloor>(5 / 3 :: rat)\<rfloor> = 1" by (simp add: floor_eq_iff)
  show ?thesis by (simp add: a b c)
qed

section \<open>The attendance map\<close>

lemma map_of_map_set: "map_of (map_set k v m) = (map_of m)(k \<mapsto> v)"
  by (induction m) (auto simp: fun_eq_iff)

lemma keys_map_set: "fst ` set (map_set k v m) = insert k (fst ` set m)"
  by (induction m) auto

lemma set_map_set: "set (map_set k v m) \<subseteq> insert (k, v) (set m)"
  by (induction m) auto

lemma distinct_keys_map_set:
  "distinct (map fst m) \<Longrightarrow> distinct (map fst (map_set k v m))"
proof (induction m)
  case Nil
  then show ?case by simp
next
  case (Cons p ps)
  then show ?case using keys_map_set [of k v ps] by (auto simp: image_iff)
qed

lemma list_all_map_set:
  "list_all P m \<Longrightarrow> P (k, v) \<Longrightarrow> list_all P (map_set k v m)"
  by (induction m) auto

lemma map_set_fresh_key:
  "distinct (map (g \<circ> snd) m) \<Longrightarrow> \<forall>p \<in> set m. g (snd p) \<noteq> g v
     \<Longrightarrow> distinct (map (g \<circ> snd) (map_set k v m))"
proof (induction m)
  case Nil
  then show ?case by simp
next
  case (Cons p ps)
  show ?case
  proof (cases "fst p = k")
    case True
    with Cons.prems show ?thesis by (auto simp: image_iff)
  next
    case False
    have "g (snd p) \<notin> (g \<circ> snd) ` set (map_set k v ps)"
    proof
      assume "g (snd p) \<in> (g \<circ> snd) ` set (map_set k v ps)"
      then obtain q where q: "q \<in> set (map_set k v ps)" "g (snd q) = g (snd p)" by auto
      with set_map_set [of k v ps] have "q = (k, v) \<or> q \<in> set ps" by auto
      with q Cons.prems show False by (auto simp: image_iff)
    qed
    with False Cons show ?thesis by simp
  qed
qed

lemma map_set_same_key:
  "distinct (map fst m) \<Longrightarrow> (k, r) \<in> set m \<Longrightarrow> g v = g r
     \<Longrightarrow> map (g \<circ> snd) (map_set k v m) = map (g \<circ> snd) m"
proof (induction m)
  case Nil
  then show ?case by simp
next
  case (Cons p ps)
  show ?case
  proof (cases "fst p = k")
    case True
    with Cons.prems have "p = (k, r)" by (cases p) (auto simp: image_iff)
    with Cons.prems show ?thesis by simp
  next
    case False
    with Cons show ?thesis by auto
  qed
qed

lemma find_records_of_day:
  "getAttendanceByUserAndDate st uid d
     = (case records_of_day st uid d of [] \<Rightarrow> None | r # rs \<Rightarrow> Some r)"
proof -
  have "find P xs = (case filter P xs of [] \<Rightarrow> None | r # rs \<Rightarrow> Some r)" for P and xs :: "Attendance list"
    by (induction xs) auto
  then show ?thesis by (simp add: getAttendanceByUserAndDate_def records_of_day_def)
qed

lemma distinct_map_filter_le1:
  "distinct (map g xs) \<Longrightarrow> length (filter (\<lambda>x. g x = c) xs) \<le> 1"
proof (induction xs)
  case Nil
  then show ?case by simp
next
  case (Cons x xs)
  then have "g x = c \<Longrightarrow> filter (\<lambda>x. g x = c) xs = []"
    by (auto simp: filter_empty_conv image_iff)
  with Cons show ?case by auto
qed

lemma records_of_day_le1:
  assumes "one_record_per_day st"
  shows "records_of_day st uid d = [] \<or> (\<exists>r. records_of_day st uid d = [r])"
proof -
  have e: "records_of_day st uid d
        = filter (\<lambda>r. (userId r, date r) = (uid, d)) (map_values (attendance st))"
    by (simp add: records_of_day_def)
  have "length (records_of_day st uid d) \<le> 1"
    unfolding e using assms unfolding one_record_per_day_def
    by (rule distinct_map_filter_le1)
  then show ?thesis
    by (cases "records_of_day st uid d") (auto simp: Suc_le_eq)
qed

lemma records_of_day_member:
  "records_of_day st uid d = r # rs \<Longrightarrow>
     r \<in> set (map_values (attendance st)) \<and> userId r = uid \<and> date r = d"
proof -
  assume a: "records_of_day st uid d = r # rs"
  have "r \<in> set (records_of_day st uid d)" by (simp add: a)
  then show ?thesis by (simp add: records_of_day_def)
qed

lemma stored_under_id:
  assumes ok: "attendance_map_ok st" and r: "r \<in> set (map_values (attendance st))"
  shows "(id_att r, r) \<in> set (attendance st) \<and> map_of (attendance st) (id_att r) = Some r"
proof -
  from r obtain k where k: "(k, r) \<in> set (attendance st)" by (auto simp: map_values_def)
  with ok have "id_att r = k" by (auto simp: attendance_map_ok_def list_all_iff)
  with k ok show ?thesis by (simp add: attendance_map_ok_def)
qed

section \<open>Check-in and check-out\<close>

lemma checkin_absent:
  assumes "records_of_day st uid today = []"
  shows "post_checkin st uid today t newId now
     = (let new = \<lparr>userId = uid, date = today, checkInTime = Some t, checkOutTime = None,
                    status = calculateStatus t, totalHours = None,
                    id_att = newId, createdAt_att = now\<rparr>
        in (Inr (Some new), st\<lparr>attendance := map_set newId new (attendance st)\<rparr>))"
  using assms
  by (simp add: post_checkin_def find_records_of_day createAttendance_def Let_def
      InsertAttendance.defs Attendance.defs)

lemma checkin_present:
  assumes "records_of_day st uid today = r # rs" and "truthy (checkInTime r)"
  shows "post_checkin st uid today t newId now = (Inl AlreadyCheckedIn, st)"
  using assms by (simp add: post_checkin_def find_records_of_day)

lemma checkin_fill:
  assumes "records_of_day st uid today = r # rs" and "\<not> truthy (checkInTime r)"
    and "map_of (attendance st) (id_att r) = Some r"
  shows "post_checkin st uid today t newId now
     = (let r' = r\<lparr>checkInTime := Some t, status := calculateStatus t\<rparr>
        in (Inr (Some r'), st\<lparr>attendance := map_set (id_att r) r' (attendance st)\<rparr>))"
  using assms
  by (simp add: post_checkin_def find_records_of_day updateAttendance_def Let_def)

lemma checkout_absent:
  assumes "records_of_day st uid today = []"
  shows "post_checkout st uid today t = (Inl NotCheckedIn, st)"
  using assms by (simp add: post_checkout_def find_records_of_day)

lemma checkout_no_checkin:
  assumes "records_of_day st uid today = r # rs" and "\<not> truthy (checkInTime r)"
  shows "post_checkout st uid today t = (Inl NotCheckedIn, st)"
  using assms by (simp add: post_checkout_def find_records_of_day)

lemma checkout_done:
  assumes "records_of_day st uid today = r # rs" and "truthy (checkInTime r)"
    and "truthy (checkOutTime r)"
  shows "post_checkout st uid today t = (Inl AlreadyCheckedOut, st)"
  using assms by (simp add: post_checkout_def find_records_of_day)

lemma checkout_write:
  assumes "records_of_day st uid today = r # rs" and "truthy (checkInTime r)"
    and "\<not> truthy (checkOutTime r)" and "map_of (attendance st) (id_att r) = Some r"
  shows "post_checkout st uid today t
     = (let hours = calculateTotalHours (the (checkInTime r)) t;
            r' = r\<lparr>checkOutTime := Some t, totalHours := Some hours,
                    status := reconcileStatus (status r) (parseFloat hours)\<rparr>
        in (Inr (Some r'), st\<lparr>attendance := map_set (id_att r) r' (attendance st)\<rparr>))"
  using assms
  by (simp add: post_checkout_def find_records_of_day updateAttendance_def Let_def)


lemma update_preserves_inv:
  assumes inv: "store_inv st" and r: "r \<in> set (map_values (attendance st))"
    and same: "userId r' = userId r" "date r' = date r" "id_att r' = id_att r"
    and out: "truthy (checkOutTime r') \<longrightarrow> truthy (checkInTime r')"
  shows "store_inv (st\<lparr>attendance := map_set (id_att r) r' (attendance st)\<rparr>)"
proof -
  let ?m = "attendance st" and ?k = "id_att r"
  from inv have ok: "attendance_map_ok st" and one: "one_record_per_day st"
    and oi: "checkout_implies_checkin st" by (simp_all add: store_inv_def)
  from ok have dk: "distinct (map fst ?m)" and ids: "list_all (\<lambda>(k, r). id_att r = k) ?m"
    by (simp_all add: attendance_map_ok_def)
  from stored_under_id [OF ok r] have mem: "(?k, r) \<in> set ?m" by simp
  have a: "distinct (map fst (map_set ?k r' ?m))"
    using dk by (rule distinct_keys_map_set)
  have b: "list_all (\<lambda>(k, r). id_att r = k) (map_set ?k r' ?m)"
    using ids by (rule list_all_map_set) (simp add: same)
  have "map ((\<lambda>r. (userId r, date r)) \<circ> snd) (map_set ?k r' ?m)
          = map ((\<lambda>r. (userId r, date r)) \<circ> snd) ?m"
    using dk mem by (rule map_set_same_key) (simp add: same)
  with one have c: "distinct (map ((\<lambda>r. (userId r, date r)) \<circ> snd) (map_set ?k r' ?m))"
    by (simp add: one_record_per_day_def map_values_def)
  from oi have "list_all ((\<lambda>r. truthy (checkOutTime r) \<longrightarrow> truthy (checkInTime r)) \<circ> snd) ?m"
    by (simp add: checkout_implies_checkin_def map_values_def list_all_iff)
  then have "list_all ((\<lambda>r. truthy (checkOutTime r) \<longrightarrow> truthy (checkInTime r)) \<circ> snd)
               (map_set ?k r' ?m)"
    by (rule list_all_map_set) (simp add: out)
  then have d: "list_all (\<lambda>r. truthy (checkOutTime r) \<longrightarrow> truthy (checkInTime r))
               (map snd (map_set ?k r' ?m))"
    by (simp add: list_all_iff)
  from a b c d show ?thesis
    by (simp add: store_inv_def attendance_map_ok_def one_record_per_day_def
        checkout_implies_checkin_def map_values_def)
qed

lemma create_preserves_inv:
  assumes inv: "store_inv st" and none: "records_of_day st (userId n) (date n) = []"
    and idn: "id_att n = k" and out: "\<not> truthy (checkOutTime n)"
  shows "store_inv (st\<lparr>attendance := map_set k n (attendance st)\<rparr>)"
proof -
  let ?m = "attendance st"
  from inv have ok: "attendance_map_ok st" and one: "one_record_per_day st"
    and oi: "checkout_implies_checkin st" by (simp_all add: store_inv_def)
  from ok have dk: "distinct (map fst ?m)" and ids: "list_all (\<lambda>(k, r). id_att r = k) ?m"
    by (simp_all add: attendance_map_ok_def)
  have a: "distinct (map fst (map_set k n ?m))"
    using dk by (rule distinct_keys_map_set)
  have b: "list_all (\<lambda>(k, r). id_att r = k) (map_set k n ?m)"
    using ids by (rule list_all_map_set) (simp add: idn)
  from one have o: "distinct (map ((\<lambda>r. (userId r, date r)) \<circ> snd) ?m)"
    by (simp add: one_record_per_day_def map_values_def)
  from none have "\<forall>p \<in> set ?m. (\<lambda>r. (userId r, date r)) (snd p) \<noteq> (\<lambda>r. (userId r, date r)) n"
    by (auto simp: records_of_day_def map_values_def filter_empty_conv)
  with o have c: "distinct (map ((\<lambda>r. (userId r, date r)) \<circ> snd) (map_set k n ?m))"
    by (rule map_set_fresh_key)
  from oi have "list_all ((\<lambda>r. truthy (checkOutTime r) \<longrightarrow> truthy (checkInTime r)) \<circ> snd) ?m"
    by (simp add: checkout_implies_checkin_def map_values_def list_all_iff)
  then have "list_all ((\<lambda>r. truthy (checkOutTime r) \<longrightarrow> truthy (checkInTime r)) \<circ> snd)
               (map_set k n ?m)"
    by (rule list_all_map_set) (simp add: out)
  then have d: "list_all (\<lambda>r. truthy (checkOutTime r) \<longrightarrow> truthy (checkInTime r))
               (map snd (map_set k n ?m))"
    by (simp add: list_all_iff)
  from a b c d show ?thesis
    by (simp add: store_inv_def attendance_map_ok_def one_record_per_day_def
        checkout_implies_checkin_def map_values_def)
qed

lemma inv_record:
  assumes inv: "store_inv st" and rs: "records_of_day st uid today = r # rs"
  shows "r \<in> set (map_values (attendance st))"
    and "map_of (attendance st) (id_att r) = Some r"
    and "truthy (checkOutTime r) \<longrightarrow> truthy (checkInTime r)"
proof -
  from records_of_day_member [OF rs] show m: "r \<in> set (map_values (attendance st))" by simp
  from inv have ok: "attendance_map_ok st" by (simp add: store_inv_def)
  from stored_under_id [OF ok m] show "map_of (attendance st) (id_att r) = Some r" by simp
  from inv m show "truthy (checkOutTime r) \<longrightarrow> truthy (checkInTime r)"
    by (simp add: store_inv_def checkout_implies_checkin_def list_all_iff)
qed

lemma checkin_preserves_inv:
  assumes inv: "store_inv st"
  shows "store_inv (snd (post_checkin st uid today t newId now))"
proof (cases "records_of_day st uid today")
  case Nil
  have "store_inv (st\<lparr>attendance := map_set newId
          \<lparr>userId = uid, date = today, checkInTime = Some t, checkOutTime = None,
           status = calculateStatus t, totalHours = None, id_att = newId, createdAt_att = now\<rparr>
          (attendance st)\<rparr>)"
    using inv by (rule create_preserves_inv) (simp_all add: Nil truthy_def)
  then show ?thesis by (simp add: checkin_absent [OF Nil] Let_def)
next
  case (Cons r rs)
  note ir = inv_record [OF inv Cons]
  show ?thesis
  proof (cases "truthy (checkInTime r)")
    case True
    then show ?thesis using inv by (simp add: checkin_present [OF Cons])
  next
    case False
    have "store_inv (st\<lparr>attendance := map_set (id_att r)
            (r\<lparr>checkInTime := Some t, status := calculateStatus t\<rparr>) (attendance st)\<rparr>)"
      using inv ir(1) by (rule update_preserves_inv) (use ir(3) False in simp_all)
    then show ?thesis by (simp add: checkin_fill [OF Cons False ir(2)] Let_def)
  qed
qed

lemma checkout_preserves_inv:
  assumes inv: "store_inv st"
  shows "store_inv (snd (post_checkout st uid today t))"
proof (cases "records_of_day st uid today")
  case Nil
  then show ?thesis using inv by (simp add: checkout_absent)
next
  case (Cons r rs)
  note ir = inv_record [OF inv Cons]
  show ?thesis
  proof (cases "truthy (checkInTime r)")
    case False
    then show ?thesis using inv by (simp add: checkout_no_checkin [OF Cons])
  next
    case True
    show ?thesis
    proof (cases "truthy (checkOutTime r)")
      case out: True
      then show ?thesis using inv by (simp add: checkout_done [OF Cons True])
    next
      case out: False
      have "store_inv (st\<lparr>attendance := map_set (id_att r)
              (r\<lparr>checkOutTime := Some t,
                 totalHours := Some (calculateTotalHours (the (checkInTime r)) t),
                 status := reconcileStatus (status r)
                   (parseFloat (calculateTotalHours (the (checkInTime r)) t))\<rparr>)
              (attendance st)\<rparr>)"
        using inv ir(1) by (rule update_preserves_inv) (use True in simp_all)
      then show ?thesis by (simp add: checkout_write [OF Cons True out ir(2)] Let_def)
    qed
  qed
qed

lemma handle_preserves_inv: "store_inv st \<Longrightarrow> store_inv (handle st req)"
  by (cases req) (simp_all add: checkin_preserves_inv checkout_preserves_inv)

lemma nonnull_map_set:
  assumes "checkout_implies_checkin_nonnull st"
    and "checkOutTime v \<noteq> None \<longrightarrow> checkInTime v \<noteq> None"
  shows "checkout_implies_checkin_nonnull (st\<lparr>attendance := map_set k v (attendance st)\<rparr>)"
proof -
  let ?P = "\<lambda>p :: string \<times> Attendance. checkOutTime (snd p) \<noteq> None \<longrightarrow> checkInTime (snd p) \<noteq> None"
  from assms(1) have "list_all ?P (attendance st)"
    by (simp add: checkout_implies_checkin_nonnull_def map_values_def list_all_iff)
  then have "list_all ?P (map_set k v (attendance st))"
    by (rule list_all_map_set) (simp add: assms(2))
  then show ?thesis
    by (simp add: checkout_implies_checkin_nonnull_def map_values_def list_all_iff)
qed

lemma handle_preserves_nonnull:
  assumes inv: "store_inv st" and nn: "checkout_implies_checkin_nonnull st"
  shows "checkout_implies_checkin_nonnull (handle st req)"
proof (cases req)
  case (CheckIn uid today t newId now)
  show ?thesis
  proof (cases "records_of_day st uid today")
    case Nil
    from nn show ?thesis
      unfolding CheckIn by (simp add: checkin_absent [OF Nil] Let_def nonnull_map_set)
  next
    case (Cons r rs)
    note ir = inv_record [OF inv Cons]
    show ?thesis
    proof (cases "truthy (checkInTime r)")
      case True
      with nn show ?thesis unfolding CheckIn by (simp add: checkin_present [OF Cons])
    next
      case False
      from nn show ?thesis
        unfolding CheckIn
        by (simp add: checkin_fill [OF Cons False ir(2)] Let_def nonnull_map_set)
    qed
  qed
next
  case (CheckOut uid today t)
  show ?thesis
  proof (cases "records_of_day st uid today")
    case Nil
    with nn show ?thesis unfolding CheckOut by (simp add: checkout_absent)
  next
    case (Cons r rs)
    note ir = inv_record [OF inv Cons]
    show ?thesis
    proof (cases "truthy (checkInTime r)")
      case False
      with nn show ?thesis unfolding CheckOut by (simp add: checkout_no_checkin [OF Cons])
    next
      case True
      then have c: "checkInTime r \<noteq> None" by (cases "checkInTime r") (simp_all add: truthy_def)
      show ?thesis
      proof (cases "truthy (checkOutTime r)")
        case out: True
        with nn show ?thesis unfolding CheckOut by (simp add: checkout_done [OF Cons True])
      next
        case out: False
        from nn c show ?thesis
          unfolding CheckOut
          by (simp add: checkout_write [OF Cons True out ir(2)] Let_def nonnull_map_set)
      qed
    qed
  qed
qed

text \<open>
  C5. From a store that satisfies them, every sequence of check-in and check-out
  requests leads to a store that satisfies both invariants: (a) at most one attendance
  record per pair of \<^verbatim>\<open>userId\<close> and \<^verbatim>\<open>date\<close>, and (b) every record whose
  \<^verbatim>\<open>checkOutTime\<close> is set has its \<^verbatim>\<open>checkInTime\<close> set. (\<open>store_inv\<close> adds the shape
  every \<^verbatim>\<open>MemStorage\<close> has: the keys of the map are distinct and each record sits under
  its own \<^verbatim>\<open>id\<close>.) In \<open>checkout_implies_checkin\<close> a time is set when it is truthy,
  which is how the routes test it; the invariant is preserved as well when a time
  counts as set as soon as it is not \<^verbatim>\<open>null\<close>.
\<close>

theorem C5_store_invariants_preserved:
  assumes "store_inv st"
  shows "store_inv (run st reqs)
     \<and> one_record_per_day (run st reqs) \<and> checkout_implies_checkin (run st reqs)
     \<and> (checkout_implies_checkin_nonnull st
          \<longrightarrow> checkout_implies_checkin_nonnull (run st reqs))"
proof -
  have a: "store_inv (foldl handle st reqs)"
    using assms by (induction reqs arbitrary: st) (simp_all add: handle_preserves_inv)
  have b: "checkout_implies_checkin_nonnull (foldl handle st reqs)"
    if "checkout_implies_checkin_nonnull st"
    using assms that
    by (induction reqs arbitrary: st)
       (simp_all add: handle_preserves_inv handle_preserves_nonnull)
  from a b show ?thesis by (simp add: run_def store_inv_def)
qed

text \<open>
  C10. When a check-in is rejected (the one rejection is \<open>AlreadyCheckedIn\<close>), or a
  check-out is rejected (with \<open>NotCheckedIn\<close> or \<open>AlreadyCheckedOut\<close>), the storage the
  route leaves is the storage it found: no record is created and none is modified.
\<close>

theorem C10_rejections_leave_store:
  "(fst (post_checkin st uid today t newId now) = Inl e
      \<longrightarrow> e = AlreadyCheckedIn \<and> snd (post_checkin st uid today t newId now) = st)
   \<and> (fst (post_checkout st uid today t') = Inl e'
      \<longrightarrow> (e' = NotCheckedIn \<or> e' = AlreadyCheckedOut) \<and> snd (post_checkout st uid today t') = st)"
  by (auto simp: post_checkin_def post_checkout_def createAttendance_def updateAttendance_def
      Let_def split: option.splits if_splits)

text \<open>C5 on the small store, for a check-in, two check-outs and a late check-in.\<close>

theorem C5_store_invariants_preserved_witness:
  "store_inv example_storage \<and> checkout_implies_checkin_nonnull example_storage
   \<and> store_inv (run example_storage
        [CheckIn ''u4'' ''2024-03-05'' ''09:15:00'' ''a6'' 7,
         CheckOut ''u4'' ''2024-03-05'' ''17:00:00'',
         CheckOut ''u4'' ''2024-03-05'' ''17:05:00'',
         CheckIn ''u3'' ''2024-03-04'' ''11:00:00'' ''a7'' 8])
   \<and> checkout_implies_checkin_nonnull (run example_storage
        [CheckIn ''u4'' ''2024-03-05'' ''09:15:00'' ''a6'' 7,
         CheckOut ''u4'' ''2024-03-05'' ''17:00:00'',
         CheckOut ''u4'' ''2024-03-05'' ''17:05:00'',
         CheckIn ''u3'' ''2024-03-04'' ''11:00:00'' ''a7'' 8])"
proof -
  have h: "store_inv example_storage" by code_simp
  have n: "checkout_implies_checkin_nonnull example_storage" by code_simp
  from C5_store_invariants_preserved [OF h] h n show ?thesis by simp
qed

text \<open>C10 on the small store, once for each rejection.\<close>

theorem C10_rejections_leave_store_witness:
  "fst (post_checkin example_storage ''u1'' ''2024-03-05'' ''09:15:00'' ''a6'' 7) = Inl AlreadyCheckedIn
   \<and> snd (post_checkin example_storage ''u1'' ''2024-03-05'' ''09:15:00'' ''a6'' 7) = example_storage
   \<and> fst (post_checkout example_storage ''u1'' ''2024-03-04'' ''18:00:00'') = Inl AlreadyCheckedOut
   \<and> snd (post_checkout example_storage ''u1'' ''2024-03-04'' ''18:00:00'') = example_storage
   \<and> fst (post_checkout example_storage ''u5'' ''2024-03-04'' ''18:00:00'') = Inl NotCheckedIn
   \<and> snd (post_checkout example_storage ''u5'' ''2024-03-04'' ''18:00:00'') = example_storage"
proof -
  have a: "fst (post_checkin example_storage ''u1'' ''2024-03-05'' ''09:15:00'' ''a6'' 7)
             = Inl AlreadyCheckedIn" by code_simp
  have b: "fst (post_checkout example_storage ''u1'' ''2024-03-04'' ''18:00:00'')
             = Inl AlreadyCheckedOut" by code_simp
  have c: "fst (post_checkout example_storage ''u5'' ''2024-03-04'' ''18:00:00'')
             = Inl NotCheckedIn" by code_simp
  from a C10_rejections_leave_store
         [of example_storage "''u1''" "''2024-03-05''" "''09:15:00''" "''a6''" 7 AlreadyCheckedIn]
  have a': "snd (post_checkin example_storage ''u1'' ''2024-03-05'' ''09:15:00'' ''a6'' 7)
             = example_storage" by blast
  from b C10_rejections_leave_store
         [of example_storage "''u1''" "''2024-03-04''" _ _ _ _ "''18:00:00''" AlreadyCheckedOut]
  have b': "snd (post_checkout example_storage ''u1'' ''2024-03-04'' ''18:00:00'')
             = example_storage" by blast
  from c C10_rejections_leave_store
         [of example_storage "''u5''" "''2024-03-04''" _ _ _ _ "''18:00:00''" NotCheckedIn]
  have c': "snd (post_checkout example_storage ''u5'' ''2024-03-04'' ''18:00:00'')
             = example_storage" by blast
  from a a' b b' c c' show ?thesis by simp
qed

lemma mem_map_set: "(k, v) \<in> set (map_set k v m)"
  by (induction m) auto

lemma map_set_new_key: "k \<notin> fst ` set m \<Longrightarrow> map_set k v m = m @ [(k, v)]"
  by (induction m) auto

lemma map_set_old_key:
  "distinct (map fst m) \<Longrightarrow> k \<in> fst ` set m
     \<Longrightarrow> map_set k v m = map (\<lambda>p. if fst p = k then (k, v) else p) m"
proof (induction m)
  case Nil
  then show ?case by simp
next
  case (Cons p ps)
  show ?case
  proof (cases "fst p = k")
    case True
    with Cons.prems have "k \<notin> fst ` set ps" by auto
    then have "map (\<lambda>p. if fst p = k then (k, v) else p) ps = ps"
      by (induction ps) auto
    with True show ?thesis by simp
  next
    case False
    with Cons show ?thesis by auto
  qed
qed

lemma values_after_update:
  assumes ok: "attendance_map_ok st" and r: "r \<in> set (map_values (attendance st))"
  shows "map_values (map_set (id_att r) r' (attendance st))
     = map (\<lambda>x. if id_att x = id_att r then r' else x) (map_values (attendance st))"
proof -
  from ok have dk: "distinct (map fst (attendance st))"
    and ids: "\<forall>p \<in> set (attendance st). id_att (snd p) = fst p"
    by (auto simp: attendance_map_ok_def list_all_iff)
  from stored_under_id [OF ok r] have "id_att r \<in> fst ` set (attendance st)"
    by (auto simp: image_iff intro: bexI [where x = "(id_att r, r)"])
  with dk have "map_set (id_att r) r' (attendance st)
      = map (\<lambda>p. if fst p = id_att r then (id_att r, r') else p) (attendance st)"
    by (rule map_set_old_key)
  then show ?thesis using ids by (simp add: map_values_def)
qed

lemma record_of_day_unique:
  assumes one: "one_record_per_day st" and v: "v \<in> set (map_values (attendance st))"
  shows "records_of_day st (userId v) (date v) = [v]"
proof -
  from v have m: "v \<in> set (records_of_day st (userId v) (date v))"
    by (simp add: records_of_day_def)
  from records_of_day_le1 [OF one, of "userId v" "date v"] m show ?thesis by auto
qed

lemma write_read_back:
  assumes inv': "store_inv (st\<lparr>attendance := map_set k v (attendance st)\<rparr>)"
  shows "getAttendanceById (st\<lparr>attendance := map_set k v (attendance st)\<rparr>) k = Some v"
    and "\<forall>k'. k' \<noteq> k \<longrightarrow>
           getAttendanceById (st\<lparr>attendance := map_set k v (attendance st)\<rparr>) k'
             = getAttendanceById st k'"
    and "records_of_day (st\<lparr>attendance := map_set k v (attendance st)\<rparr>) (userId v) (date v)
           = [v]"
    and "getAttendanceByUserAndDate (st\<lparr>attendance := map_set k v (attendance st)\<rparr>)
           (userId v) (date v) = Some v"
proof -
  let ?st = "st\<lparr>attendance := map_set k v (attendance st)\<rparr>"
  show "getAttendanceById ?st k = Some v"
    by (simp add: getAttendanceById_def map_of_map_set)
  show "\<forall>k'. k' \<noteq> k \<longrightarrow> getAttendanceById ?st k' = getAttendanceById st k'"
    by (simp add: getAttendanceById_def map_of_map_set)
  from inv' have one: "one_record_per_day ?st" by (simp add: store_inv_def)
  have "(k, v) \<in> set (attendance ?st)" by (simp add: mem_map_set)
  then have "v \<in> set (map_values (attendance ?st))"
    unfolding map_values_def by (metis image_eqI list.set_map snd_conv)
  from record_of_day_unique [OF one this]
  show r: "records_of_day ?st (userId v) (date v) = [v]" .
  then show "getAttendanceByUserAndDate ?st (userId v) (date v) = Some v"
    by (simp add: find_records_of_day)
qed


lemma checkin_creates:
  assumes inv: "store_inv st" and none: "records_of_day st uid today = []"
  shows "(let new = \<lparr>userId = uid, date = today, checkInTime = Some t, checkOutTime = None,
                       status = calculateStatus t, totalHours = None,
                       id_att = newId, createdAt_att = now\<rparr>;
               st' = st\<lparr>attendance := map_set newId new (attendance st)\<rparr>
           in post_checkin st uid today t newId now = (Inr (Some new), st')
              \<and> getAttendanceById st' newId = Some new
              \<and> (\<forall>k. k \<noteq> newId \<longrightarrow> getAttendanceById st' k = getAttendanceById st k)
              \<and> records_of_day st' uid today = [new]
              \<and> getAttendanceByUserAndDate st' uid today = Some new
              \<and> (newId \<notin> fst ` set (attendance st) \<longrightarrow>
                    map_values (attendance st') = map_values (attendance st) @ [new]))"
proof -
  let ?new = "\<lparr>userId = uid, date = today, checkInTime = Some t, checkOutTime = None,
                 status = calculateStatus t, totalHours = None,
                 id_att = newId, createdAt_att = now\<rparr>"
  let ?st' = "st\<lparr>attendance := map_set newId ?new (attendance st)\<rparr>"
  have e: "post_checkin st uid today t newId now = (Inr (Some ?new), ?st')"
    by (simp add: checkin_absent [OF none] Let_def)
  from checkin_preserves_inv [OF inv, of uid today t newId now] e
  have inv': "store_inv ?st'" by simp
  have ud: "userId ?new = uid" "date ?new = today" by simp_all
  note rb = write_read_back [OF inv', unfolded ud]
  have ap: "newId \<notin> fst ` set (attendance st) \<longrightarrow>
      map_values (attendance ?st') = map_values (attendance st) @ [?new]"
    by (simp add: map_set_new_key map_values_def)
  show ?thesis unfolding Let_def using e rb ap by blast
qed

lemma checkin_fills:
  assumes inv: "store_inv st" and some: "records_of_day st uid today = [r]"
    and no: "\<not> truthy (checkInTime r)"
  shows "(let r' = r\<lparr>checkInTime := Some t, status := calculateStatus t\<rparr>;
               st' = st\<lparr>attendance := map_set (id_att r) r' (attendance st)\<rparr>
           in post_checkin st uid today t newId now = (Inr (Some r'), st')
              \<and> getAttendanceById st' (id_att r) = Some r'
              \<and> (\<forall>k. k \<noteq> id_att r \<longrightarrow> getAttendanceById st' k = getAttendanceById st k)
              \<and> records_of_day st' uid today = [r']
              \<and> getAttendanceByUserAndDate st' uid today = Some r'
              \<and> map_values (attendance st')
                   = map (\<lambda>x. if id_att x = id_att r then r' else x) (map_values (attendance st)))"
proof -
  let ?r' = "r\<lparr>checkInTime := Some t, status := calculateStatus t\<rparr>"
  let ?st' = "st\<lparr>attendance := map_set (id_att r) ?r' (attendance st)\<rparr>"
  note ir = inv_record [OF inv some]
  from inv have ok: "attendance_map_ok st" by (simp add: store_inv_def)
  have e: "post_checkin st uid today t newId now = (Inr (Some ?r'), ?st')"
    by (simp add: checkin_fill [OF some no ir(2)] Let_def)
  from checkin_preserves_inv [OF inv, of uid today t newId now] e
  have inv': "store_inv ?st'" by simp
  from records_of_day_member [OF some]
  have ud: "userId ?r' = uid" "date ?r' = today" by simp_all
  note rb = write_read_back [OF inv', unfolded ud]
  have vs: "map_values (attendance ?st')
      = map (\<lambda>x. if id_att x = id_att r then ?r' else x) (map_values (attendance st))"
    by (simp add: values_after_update [OF ok ir(1)])
  show ?thesis unfolding Let_def using e rb vs by blast
qed

lemma checkout_writes:
  assumes inv: "store_inv st" and some: "records_of_day st uid today = [r]"
    and yes: "truthy (checkInTime r)" and no: "\<not> truthy (checkOutTime r)"
  shows "(let hours = calculateTotalHours (the (checkInTime r)) t';
               r' = r\<lparr>checkOutTime := Some t', totalHours := Some hours,
                       status := reconcileStatus (status r) (parseFloat hours)\<rparr>;
               st' = st\<lparr>attendance := map_set (id_att r) r' (attendance st)\<rparr>
           in post_checkout st uid today t' = (Inr (Some r'), st')
              \<and> getAttendanceById st' (id_att r) = Some r'
              \<and> (\<forall>k. k \<noteq> id_att r \<longrightarrow> getAttendanceById st' k = getAttendanceById st k)
              \<and> records_of_day st' uid today = [r']
              \<and> getAttendanceByUserAndDate st' uid today = Some r'
              \<and> map_values (attendance st')
                   = map (\<lambda>x. if id_att x = id_att r then r' else x) (map_values (attendance st)))"
proof -
  let ?h = "calculateTotalHours (the (checkInTime r)) t'"
  let ?r' = "r\<lparr>checkOutTime := Some t', totalHours := Some ?h,
                 status := reconcileStatus (status r) (parseFloat ?h)\<rparr>"
  let ?st' = "st\<lparr>attendance := map_set (id_att r) ?r' (attendance st)\<rparr>"
  note ir = inv_record [OF inv some]
  from inv have ok: "attendance_map_ok st" by (simp add: store_inv_def)
  have e: "post_checkout st uid today t' = (Inr (Some ?r'), ?st')"
    by (simp add: checkout_write [OF some yes no ir(2)] Let_def)
  from checkout_preserves_inv [OF inv, of uid today t'] e
  have inv': "store_inv ?st'" by simp
  from records_of_day_member [OF some]
  have ud: "userId ?r' = uid" "date ?r' = today" by simp_all
  note rb = write_read_back [OF inv', unfolded ud]
  have vs: "map_values (attendance ?st')
      = map (\<lambda>x. if id_att x = id_att r then ?r' else x) (map_values (attendance st))"
    by (simp add: values_after_update [OF ok ir(1)])
  show ?thesis unfolding Let_def using e rb vs by blast
qed

lemma checkin_rejected_iff:
  assumes "store_inv st"
  shows "fst (post_checkin st uid today t newId now) = Inl AlreadyCheckedIn
        \<longleftrightarrow> list_ex (\<lambda>r. truthy (checkInTime r)) (records_of_day st uid today)"
proof -
  from assms have one: "one_record_per_day st" by (simp add: store_inv_def)
  from records_of_day_le1 [OF one, of uid today]
  consider (none) "records_of_day st uid today = []"
    | (some) r where "records_of_day st uid today = [r]" by blast
  then show ?thesis
  proof cases
    case none
    then show ?thesis by (simp add: checkin_absent [OF none] Let_def)
  next
    case some
    note ir = inv_record [OF assms some]
    show ?thesis
    proof (cases "truthy (checkInTime r)")
      case False
      then show ?thesis by (simp add: some checkin_fill [OF some False ir(2)] Let_def)
    next
      case True
      then show ?thesis by (simp add: some checkin_present [OF some True])
    qed
  qed
qed

lemma checkout_rejected_iff:
  assumes "store_inv st"
  shows "(fst (post_checkout st uid today t') = Inl NotCheckedIn
        \<longleftrightarrow> \<not> list_ex (\<lambda>r. truthy (checkInTime r)) (records_of_day st uid today))
     \<and> (fst (post_checkout st uid today t') = Inl AlreadyCheckedOut
        \<longleftrightarrow> list_ex (\<lambda>r. truthy (checkOutTime r)) (records_of_day st uid today))"
proof -
  from assms have one: "one_record_per_day st" by (simp add: store_inv_def)
  from records_of_day_le1 [OF one, of uid today]
  consider (none) "records_of_day st uid today = []"
    | (some) r where "records_of_day st uid today = [r]" by blast
  then show ?thesis
  proof cases
    case none
    then show ?thesis by (simp add: checkout_absent [OF none])
  next
    case some
    note ir = inv_record [OF assms some]
    show ?thesis
    proof (cases "truthy (checkInTime r)")
      case False
      with ir(3) have "\<not> truthy (checkOutTime r)" by blast
      with False show ?thesis by (simp add: some checkout_no_checkin [OF some False])
    next
      case True
      show ?thesis
      proof (cases "truthy (checkOutTime r)")
        case out: True
        with True show ?thesis by (simp add: some checkout_done [OF some True out])
      next
        case out: False
        with True show ?thesis
          by (simp add: some checkout_write [OF some True out ir(2)] Let_def)
      qed
    qed
  qed
qed

text \<open>
  C4. For a user and a day, in a store that satisfies the invariants:
  the check-in is rejected with \<open>AlreadyCheckedIn\<close> exactly when a record for that user
  and day exists with its check-in time set; when no record exists it creates one (no
  check-out, no hours) and when the record has no check-in time it fills that record in,
  both with the time given and the status \<open>calculateStatus\<close> derives from it.
  The check-out is rejected with \<open>NotCheckedIn\<close> exactly when no record for that user
  and day has a check-in time (none exists, or it lacks the time), with
  \<open>AlreadyCheckedOut\<close> exactly when the record's check-out time is set, and otherwise
  writes the check-out time, the computed duration and the reconciled status.
  After each successful request the record is in the store: looking it up by its
  \<^verbatim>\<open>id\<close> or by user and day returns the record just created or written, it is the
  only record of that user and day, the records under all other identifiers are as
  before, and the list of records is the old one with the new record appended (for a
  fresh identifier) or with the written record in the place of the old one.
\<close>

theorem C4_checkin_checkout_outcomes:
  assumes "store_inv st"
  shows
    "(fst (post_checkin st uid today t newId now) = Inl AlreadyCheckedIn
        \<longleftrightarrow> list_ex (\<lambda>r. truthy (checkInTime r)) (records_of_day st uid today))
     \<and> (records_of_day st uid today = [] \<longrightarrow>
          (let new = \<lparr>userId = uid, date = today, checkInTime = Some t, checkOutTime = None,
                       status = calculateStatus t, totalHours = None,
                       id_att = newId, createdAt_att = now\<rparr>;
               st' = st\<lparr>attendance := map_set newId new (attendance st)\<rparr>
           in post_checkin st uid today t newId now = (Inr (Some new), st')
              \<and> getAttendanceById st' newId = Some new
              \<and> (\<forall>k. k \<noteq> newId \<longrightarrow> getAttendanceById st' k = getAttendanceById st k)
              \<and> records_of_day st' uid today = [new]
              \<and> getAttendanceByUserAndDate st' uid today = Some new
              \<and> (newId \<notin> fst ` set (attendance st) \<longrightarrow>
                    map_values (attendance st') = map_values (attendance st) @ [new])))
     \<and> (\<forall>r. records_of_day st uid today = [r] \<and> \<not> truthy (checkInTime r) \<longrightarrow>
          (let r' = r\<lparr>checkInTime := Some t, status := calculateStatus t\<rparr>;
               st' = st\<lparr>attendance := map_set (id_att r) r' (attendance st)\<rparr>
           in post_checkin st uid today t newId now = (Inr (Some r'), st')
              \<and> getAttendanceById st' (id_att r) = Some r'
              \<and> (\<forall>k. k \<noteq> id_att r \<longrightarrow> getAttendanceById st' k = getAttendanceById st k)
              \<and> records_of_day st' uid today = [r']
              \<and> getAttendanceByUserAndDate st' uid today = Some r'
              \<and> map_values (attendance st')
                   = map (\<lambda>x. if id_att x = id_att r then r' else x) (map_values (attendance st))))
     \<and> (fst (post_checkout st uid today t') = Inl NotCheckedIn
        \<longleftrightarrow> \<not> list_ex (\<lambda>r. truthy (checkInTime r)) (records_of_day st uid today))
     \<and> (fst (post_checkout st uid today t') = Inl AlreadyCheckedOut
        \<longleftrightarrow> list_ex (\<lambda>r. truthy (checkOutTime r)) (records_of_day st uid today))
     \<and> (\<forall>r. records_of_day st uid today = [r] \<and> truthy (checkInTime r)
              \<and> \<not> truthy (checkOutTime r) \<longrightarrow>
          (let hours = calculateTotalHours (the (checkInTime r)) t';
               r' = r\<lparr>checkOutTime := Some t', totalHours := Some hours,
                       status := reconcileStatus (status r) (parseFloat hours)\<rparr>;
               st' = st\<lparr>attendance := map_set (id_att r) r' (attendance st)\<rparr>
           in post_checkout st uid today t' = (Inr (Some r'), st')
              \<and> getAttendanceById st' (id_att r) = Some r'
              \<and> (\<forall>k. k \<noteq> id_att r \<longrightarrow> getAttendanceById st' k = getAttendanceById st k)
              \<and> records_of_day st' uid today = [r']
              \<and> getAttendanceByUserAndDate st' uid today = Some r'
              \<and> map_values (attendance st')
                   = map (\<lambda>x. if id_att x = id_att r then r' else x) (map_values (attendance st))))"
proof -
  note c1 = checkin_rejected_iff [OF assms, of uid today t newId now]
  from checkin_creates [OF assms, of uid today t newId now]
  have c2: "records_of_day st uid today = [] \<longrightarrow>
          (let new = \<lparr>userId = uid, date = today, checkInTime = Some t, checkOutTime = None,
                       status = calculateStatus t, totalHours = None,
                       id_att = newId, createdAt_att = now\<rparr>;
               st' = st\<lparr>attendance := map_set newId new (attendance st)\<rparr>
           in post_checkin st uid today t newId now = (Inr (Some new), st')
              \<and> getAttendanceById st' newId = Some new
              \<and> (\<forall>k. k \<noteq> newId \<longrightarrow> getAttendanceById st' k = getAttendanceById st k)
              \<and> records_of_day st' uid today = [new]
              \<and> getAttendanceByUserAndDate st' uid today = Some new
              \<and> (newId \<notin> fst ` set (attendance st) \<longrightarrow>
                    map_values (attendance st') = map_values (attendance st) @ [new]))"
    by blast
  from checkin_fills [OF assms, of uid today _ t newId now]
  have c3: "\<forall>r. records_of_day st uid today = [r] \<and> \<not> truthy (checkInTime r) \<longrightarrow>
          (let r' = r\<lparr>checkInTime := Some t, status := calculateStatus t\<rparr>;
               st' = st\<lparr>attendance := map_set (id_att r) r' (attendance st)\<rparr>
           in post_checkin st uid today t newId now = (Inr (Some r'), st')
              \<and> getAttendanceById st' (id_att r) = Some r'
              \<and> (\<forall>k. k \<noteq> id_att r \<longrightarrow> getAttendanceById st' k = getAttendanceById st k)
              \<and> records_of_day st' uid today = [r']
              \<and> getAttendanceByUserAndDate st' uid today = Some r'
              \<and> map_values (attendance st')
                   = map (\<lambda>x. if id_att x = id_att r then r' else x) (map_values (attendance st)))"
    by blast
  note c45 = checkout_rejected_iff [OF assms, of uid today t']
  from checkout_writes [OF assms, of uid today _ t']
  have c6: "\<forall>r. records_of_day st uid today = [r] \<and> truthy (checkInTime r)
              \<and> \<not> truthy (checkOutTime r) \<longrightarrow>
          (let hours = calculateTotalHours (the (checkInTime r)) t';
               r' = r\<lparr>checkOutTime := Some t', totalHours := Some hours,
                       status := reconcileStatus (status r) (parseFloat hours)\<rparr>;
               st' = st\<lparr>attendance := map_set (id_att r) r' (attendance st)\<rparr>
           in post_checkout st uid today t' = (Inr (Some r'), st')
              \<and> getAttendanceById st' (id_att r) = Some r'
              \<and> (\<forall>k. k \<noteq> id_att r \<longrightarrow> getAttendanceById st' k = getAttendanceById st k)
              \<and> records_of_day st' uid today = [r']
              \<and> getAttendanceByUserAndDate st' uid today = Some r'
              \<and> map_values (attendance st')
                   = map (\<lambda>x. if id_att x = id_att r then r' else x) (map_values (attendance st)))"
    by blast
  from c45 have c4: "fst (post_checkout st uid today t') = Inl NotCheckedIn
        \<longleftrightarrow> \<not> list_ex (\<lambda>r. truthy (checkInTime r)) (records_of_day st uid today)"
    and c5: "fst (post_checkout st uid today t') = Inl AlreadyCheckedOut
        \<longleftrightarrow> list_ex (\<lambda>r. truthy (checkOutTime r)) (records_of_day st uid today)"
    by blast+
  show ?thesis by (intro conjI c1 c2 c3 c4 c5 c6)
qed

text \<open>
  C4 on the small store: a user without a record, one with a record that lacks the
  check-in, one checked in and one checked out, with the records read back.
\<close>

theorem C4_checkin_checkout_outcomes_witness:
  "store_inv example_storage
   \<and> records_of_day example_storage ''u4'' ''2024-03-05'' = []
   \<and> fst (post_checkin example_storage ''u4'' ''2024-03-05'' ''09:15:00'' ''a6'' 7)
        = Inr (Some \<lparr>userId = ''u4'', date = ''2024-03-05'', checkInTime = Some ''09:15:00'',
                     checkOutTime = None, status = ''present'', totalHours = None,
                     id_att = ''a6'', createdAt_att = 7\<rparr>)
   \<and> getAttendanceById
        (snd (post_checkin example_storage ''u4'' ''2024-03-05'' ''09:15:00'' ''a6'' 7)) ''a6''
        = Some \<lparr>userId = ''u4'', date = ''2024-03-05'', checkInTime = Some ''09:15:00'',
                checkOutTime = None, status = ''present'', totalHours = None,
                id_att = ''a6'', createdAt_att = 7\<rparr>
   \<and> fst (post_checkout example_storage ''u4'' ''2024-03-05'' ''17:00:00'') = Inl NotCheckedIn
   \<and> records_of_day example_storage ''u3'' ''2024-03-04''
        = [ex_att ''a3'' ''u3'' ''2024-03-04'' None None ''absent'' None]
   \<and> fst (post_checkin example_storage ''u3'' ''2024-03-04'' ''11:00:00'' ''a7'' 8)
        = Inr (Some (ex_att ''a3'' ''u3'' ''2024-03-04'' (Some ''11:00:00'') None ''late'' None))
   \<and> records_of_day
        (snd (post_checkin example_storage ''u3'' ''2024-03-04'' ''11:00:00'' ''a7'' 8))
        ''u3'' ''2024-03-04''
        = [ex_att ''a3'' ''u3'' ''2024-03-04'' (Some ''11:00:00'') None ''late'' None]
   \<and> records_of_day example_storage ''u1'' ''2024-03-05''
        = [ex_att ''a4'' ''u1'' ''2024-03-05'' (Some ''10:00:00'') None ''late'' None]
   \<and> fst (post_checkin example_storage ''u1'' ''2024-03-05'' ''10:30:00'' ''a8'' 9)
        = Inl AlreadyCheckedIn
   \<and> fst (post_checkout example_storage ''u1'' ''2024-03-05'' ''13:30:00'')
        = Inr (Some (ex_att ''a4'' ''u1'' ''2024-03-05'' (Some ''10:00:00'') (Some ''13:30:00'')
                       ''half-day'' (Some ''3.50'')))
   \<and> getAttendanceById
        (snd (post_checkout example_storage ''u1'' ''2024-03-05'' ''13:30:00'')) ''a4''
        = Some (ex_att ''a4'' ''u1'' ''2024-03-05'' (Some ''10:00:00'') (Some ''13:30:00'')
                  ''half-day'' (Some ''3.50''))
   \<and> getAttendanceByUserAndDate
        (snd (post_checkout example_storage ''u1'' ''2024-03-05'' ''13:30:00''))
        ''u1'' ''2024-03-05''
        = Some (ex_att ''a4'' ''u1'' ''2024-03-05'' (Some ''10:00:00'') (Some ''13:30:00'')
                  ''half-day'' (Some ''3.50''))
   \<and> getAttendanceById
        (snd (post_checkout example_storage ''u1'' ''2024-03-05'' ''13:30:00'')) ''a1''
        = getAttendanceById example_storage ''a1''
   \<and> fst (post_checkout example_storage ''u1'' ''2024-03-04'' ''18:00:00'') = Inl AlreadyCheckedOut"
proof -
  have h: "store_inv example_storage" by code_simp
  have r4: "records_of_day example_storage ''u4'' ''2024-03-05'' = []" by code_simp
  have r3: "records_of_day example_storage ''u3'' ''2024-03-04''
              = [ex_att ''a3'' ''u3'' ''2024-03-04'' None None ''absent'' None]" by code_simp
  have r1: "records_of_day example_storage ''u1'' ''2024-03-05''
              = [ex_att ''a4'' ''u1'' ''2024-03-05'' (Some ''10:00:00'') None ''late'' None]"
    by code_simp
  have r0: "records_of_day example_storage ''u1'' ''2024-03-04''
              = [ex_att ''a1'' ''u1'' ''2024-03-04'' (Some ''09:00:00'') (Some ''17:30:00'')
                   ''present'' (Some ''8.50'')]"
    by code_simp
  have s1: "calculateStatus ''09:15:00'' = ''present''" by code_simp
  have s2: "calculateStatus ''11:00:00'' = ''late''" by code_simp
  have s3: "calculateTotalHours ''10:00:00'' ''13:30:00'' = ''3.50''" by code_simp
  have s4: "parseFloat ''3.50'' = Some (7 / 2)" by code_simp
  have s5: "reconcileStatus ''late'' (Some (7 / 2)) = ''half-day''"
    by (simp add: reconcileStatus_def num_lt_def)
  note T4 = C4_checkin_checkout_outcomes [OF h, of "''u4''" "''2024-03-05''" "''09:15:00''"
      "''a6''" 7 "''17:00:00''"]
  note T3 = C4_checkin_checkout_outcomes [OF h, of "''u3''" "''2024-03-04''" "''11:00:00''"
      "''a7''" 8 "''17:00:00''"]
  note T1 = C4_checkin_checkout_outcomes [OF h, of "''u1''" "''2024-03-05''" "''10:30:00''"
      "''a8''" 9 "''13:30:00''"]
  note T0 = C4_checkin_checkout_outcomes [OF h, of "''u1''" "''2024-03-04''" "''10:30:00''"
      "''a8''" 9 "''18:00:00''"]
  from T4 have a: "fst (post_checkin example_storage ''u4'' ''2024-03-05'' ''09:15:00'' ''a6'' 7)
        = Inr (Some \<lparr>userId = ''u4'', date = ''2024-03-05'', checkInTime = Some ''09:15:00'',
                     checkOutTime = None, status = ''present'', totalHours = None,
                     id_att = ''a6'', createdAt_att = 7\<rparr>)"
    by (simp add: r4 s1 Let_def)
  from T4 have a': "getAttendanceById
        (snd (post_checkin example_storage ''u4'' ''2024-03-05'' ''09:15:00'' ''a6'' 7)) ''a6''
        = Some \<lparr>userId = ''u4'', date = ''2024-03-05'', checkInTime = Some ''09:15:00'',
                checkOutTime = None, status = ''present'', totalHours = None,
                id_att = ''a6'', createdAt_att = 7\<rparr>"
    by (simp add: r4 s1 Let_def)
  from T4 have b: "fst (post_checkout example_storage ''u4'' ''2024-03-05'' ''17:00:00'')
        = Inl NotCheckedIn"
    by (simp add: r4)
  from T3 have c: "fst (post_checkin example_storage ''u3'' ''2024-03-04'' ''11:00:00'' ''a7'' 8)
        = Inr (Some (ex_att ''a3'' ''u3'' ''2024-03-04'' (Some ''11:00:00'') None ''late'' None))"
    by (simp add: r3 s2 Let_def ex_att_def truthy_def)
  from T3 have c': "records_of_day
        (snd (post_checkin example_storage ''u3'' ''2024-03-04'' ''11:00:00'' ''a7'' 8))
        ''u3'' ''2024-03-04''
        = [ex_att ''a3'' ''u3'' ''2024-03-04'' (Some ''11:00:00'') None ''late'' None]"
    by (simp add: r3 s2 Let_def ex_att_def truthy_def)
  from T1 have d: "fst (post_checkin example_storage ''u1'' ''2024-03-05'' ''10:30:00'' ''a8'' 9)
        = Inl AlreadyCheckedIn"
    by (simp add: r1 ex_att_def truthy_def)
  from T1 have e: "fst (post_checkout example_storage ''u1'' ''2024-03-05'' ''13:30:00'')
        = Inr (Some (ex_att ''a4'' ''u1'' ''2024-03-05'' (Some ''10:00:00'') (Some ''13:30:00'')
                       ''half-day'' (Some ''3.50'')))"
    by (simp add: r1 s3 s4 s5 Let_def ex_att_def truthy_def)
  from T1 have e1: "getAttendanceById
        (snd (post_checkout example_storage ''u1'' ''2024-03-05'' ''13:30:00'')) ''a4''
        = Some (ex_att ''a4'' ''u1'' ''2024-03-05'' (Some ''10:00:00'') (Some ''13:30:00'')
                  ''half-day'' (Some ''3.50''))"
    by (simp add: r1 s3 s4 s5 Let_def ex_att_def truthy_def)
  from T1 have e2: "getAttendanceByUserAndDate
        (snd (post_checkout example_storage ''u1'' ''2024-03-05'' ''13:30:00''))
        ''u1'' ''2024-03-05''
        = Some (ex_att ''a4'' ''u1'' ''2024-03-05'' (Some ''10:00:00'') (Some ''13:30:00'')
                  ''half-day'' (Some ''3.50''))"
    by (simp add: r1 s3 s4 s5 Let_def ex_att_def truthy_def)
  from T1 have e3: "getAttendanceById
        (snd (post_checkout example_storage ''u1'' ''2024-03-05'' ''13:30:00'')) ''a1''
        = getAttendanceById example_storage ''a1''"
    by (simp add: r1 s3 s4 s5 Let_def ex_att_def truthy_def)
  from T0 have f: "fst (post_checkout example_storage ''u1'' ''2024-03-04'' ''18:00:00'')
        = Inl AlreadyCheckedOut"
    by (simp add: r0 ex_att_def truthy_def)
  from h r4 a a' b r3 c c' r1 d e e1 e2 e3 f show ?thesis by blast
qed

lemma time_str_truthy: "truthy (Some (time_str h m s))"
  by (simp add: truthy_def time_str_def)

lemma hours_lt_4:
  fixes d :: int
  shows "(rat_of_int (sgn d * ((10 * \<bar>d\<bar> + 3) div 6)) / 100 < 4) = (d < 240)"
proof -
  have "(rat_of_int (sgn d * ((10 * \<bar>d\<bar> + 3) div 6)) / 100 < 4)
          = (rat_of_int (sgn d * ((10 * \<bar>d\<bar> + 3) div 6)) < rat_of_int 400)"
    by simp
  also have "\<dots> = (sgn d * ((10 * \<bar>d\<bar> + 3) div 6) < 400)"
    by (simp only: of_int_less_iff)
  also have "\<dots> = (d < 240)"
    by (cases "d < 0"; cases "d = 0"; simp add: sgn_if; presburger)
  finally show ?thesis .
qed

text \<open>
  C3. For every stored status \<open>s\<close> and every number of hours \<open>h\<close>, the status the
  check-out writes is \<^verbatim>\<open>half-day\<close> when \<open>h < 4\<close>, whatever \<open>s\<close> is, and \<open>s\<close> itself
  when \<open>h \<ge> 4\<close>: (\<^verbatim>\<open>late\<close>, 3.5) gives \<^verbatim>\<open>half-day\<close>, (\<^verbatim>\<open>present\<close>, 8.0) gives
  \<^verbatim>\<open>present\<close>, and \<^verbatim>\<open>late\<close> never becomes \<^verbatim>\<open>present\<close>. The route applies it to the
  hours it computed: checking out a record that was checked in at \<^verbatim>\<open>HH:MM:SS\<close> stores
  \<^verbatim>\<open>half-day\<close> exactly when those hours are below 4, that is when fewer than 240
  minutes lie between the two times, and the stored status otherwise.
\<close>

theorem C3_checkout_reconciles_status:
  "(h < 4 \<longrightarrow> reconcileStatus s (Some h) = ''half-day'')
   \<and> (4 \<le> h \<longrightarrow> reconcileStatus s (Some h) = s)
   \<and> reconcileStatus ''late'' (Some (7 / 2)) = ''half-day''
   \<and> reconcileStatus ''present'' (Some 8) = ''present''
   \<and> reconcileStatus ''late'' x \<noteq> ''present''
   \<and> (store_inv st \<and> records_of_day st uid today = [r]
        \<and> checkInTime r = Some (time_str h1 m1 s1) \<and> \<not> truthy (checkOutTime r)
      \<longrightarrow> (\<exists>hw r'.
             parseFloat (calculateTotalHours (time_str h1 m1 s1) (time_str h2 m2 s2)) = Some hw
             \<and> fst (post_checkout st uid today (time_str h2 m2 s2)) = Inr (Some r')
             \<and> status r' = (if hw < 4 then ''half-day'' else status r)
             \<and> (hw < 4) = (int (h2 * 60 + m2) - int (h1 * 60 + m1) < 240)))"
proof -
  have a: "reconcileStatus s (Some h) = (if h < 4 then ''half-day'' else s)" for s h
    by (simp add: reconcileStatus_def num_lt_def)
  have b: "reconcileStatus ''late'' x \<noteq> ''present''"
    by (simp add: reconcileStatus_def)
  have c: "\<exists>hw r'.
             parseFloat (calculateTotalHours (time_str h1 m1 s1) (time_str h2 m2 s2)) = Some hw
             \<and> fst (post_checkout st uid today (time_str h2 m2 s2)) = Inr (Some r')
             \<and> status r' = (if hw < 4 then ''half-day'' else status r)
             \<and> (hw < 4) = (int (h2 * 60 + m2) - int (h1 * 60 + m1) < 240)"
    if inv: "store_inv st" and rs: "records_of_day st uid today = [r]"
      and ci: "checkInTime r = Some (time_str h1 m1 s1)" and co: "\<not> truthy (checkOutTime r)"
  proof -
    define d where "d = int (h2 * 60 + m2) - int (h1 * 60 + m1)"
    define hw where "hw = rat_of_int (sgn d * ((10 * \<bar>d\<bar> + 3) div 6)) / 100"
    have p: "parseFloat (calculateTotalHours (time_str h1 m1 s1) (time_str h2 m2 s2)) = Some hw"
      unfolding hw_def d_def calculateTotalHours_time_str by (rule parseFloat_hours)
    have t: "truthy (checkInTime r)" by (simp add: ci time_str_truthy)
    note ir = inv_record [OF inv rs]
    have w: "fst (post_checkout st uid today (time_str h2 m2 s2))
               = Inr (Some (r\<lparr>checkOutTime := Some (time_str h2 m2 s2),
                    totalHours := Some (calculateTotalHours (time_str h1 m1 s1) (time_str h2 m2 s2)),
                    status := reconcileStatus (status r) (Some hw)\<rparr>))"
      by (simp add: checkout_write [OF rs t co ir(2)] Let_def ci p)
    have l: "(hw < 4) = (d < 240)" unfolding hw_def by (rule hours_lt_4)
    from p w l show ?thesis unfolding d_def [symmetric] by (simp add: a)
  qed
  from a b c show ?thesis by (simp only: a) auto
qed

text \<open>C3 for the employee who checked in at 10:00:00 and leaves at 13:30:00.\<close>

theorem C3_checkout_reconciles_status_witness:
  "store_inv example_storage
   \<and> records_of_day example_storage ''u1'' ''2024-03-05''
        = [ex_att ''a4'' ''u1'' ''2024-03-05'' (Some ''10:00:00'') None ''late'' None]
   \<and> time_str 10 0 0 = ''10:00:00''
   \<and> (\<exists>hw r'.
         parseFloat (calculateTotalHours (time_str 10 0 0) (time_str 13 30 0)) = Some hw
         \<and> fst (post_checkout example_storage ''u1'' ''2024-03-05'' (time_str 13 30 0))
              = Inr (Some r')
         \<and> status r' = ''half-day'' \<and> hw < 4)
   \<and> reconcileStatus ''late'' (Some 3) = ''half-day''
   \<and> reconcileStatus ''late'' (Some 5) = ''late''"
proof -
  have h: "store_inv example_storage" by code_simp
  have r1: "records_of_day example_storage ''u1'' ''2024-03-05''
              = [ex_att ''a4'' ''u1'' ''2024-03-05'' (Some ''10:00:00'') None ''late'' None]"
    by code_simp
  have t: "time_str 10 0 0 = ''10:00:00''" by code_simp
  have ci: "checkInTime (ex_att ''a4'' ''u1'' ''2024-03-05'' (Some ''10:00:00'') None ''late'' None)
              = Some (time_str 10 0 0)"
    by (simp add: t ex_att_def)
  have co: "\<not> truthy (checkOutTime
              (ex_att ''a4'' ''u1'' ''2024-03-05'' (Some ''10:00:00'') None ''late'' None))"
    by (simp add: ex_att_def truthy_def)
  note T = C3_checkout_reconciles_status
    [where h = 3 and s = "''late''" and st = example_storage and uid = "''u1''"
       and today = "''2024-03-05''"
       and r = "ex_att ''a4'' ''u1'' ''2024-03-05'' (Some ''10:00:00'') None ''late'' None"
       and ?h1.0 = 10 and ?m1.0 = 0 and ?s1.0 = 0 and ?h2.0 = 13 and ?m2.0 = 30 and ?s2.0 = 0]
  note U = C3_checkout_reconciles_status [where h = 5 and s = "''late''"]
  from T h r1 ci co have e: "\<exists>hw r'.
         parseFloat (calculateTotalHours (time_str 10 0 0) (time_str 13 30 0)) = Some hw
         \<and> fst (post_checkout example_storage ''u1'' ''2024-03-05'' (time_str 13 30 0))
              = Inr (Some r')
         \<and> status r' = (if hw < 4 then ''half-day''
              else status (ex_att ''a4'' ''u1'' ''2024-03-05'' (Some ''10:00:00'') None ''late'' None))
         \<and> (hw < 4) = (int (13 * 60 + 30) - int (10 * 60 + 0) < 240)"
    by blast
  then have e': "\<exists>hw r'.
         parseFloat (calculateTotalHours (time_str 10 0 0) (time_str 13 30 0)) = Some hw
         \<and> fst (post_checkout example_storage ''u1'' ''2024-03-05'' (time_str 13 30 0))
              = Inr (Some r')
         \<and> status r' = ''half-day'' \<and> hw < 4"
    by auto
  from T have a: "reconcileStatus ''late'' (Some 3) = ''half-day''" by simp
  from U have b: "reconcileStatus ''late'' (Some 5) = ''late''" by simp
  from h r1 t e' a b show ?thesis by blast
qed

section \<open>Range queries\<close>

lemma localeCompare_le: "(localeCompare a b \<le> 0) = (a \<le> b)"
  by (auto simp: localeCompare_def)

lemma mset_insort_cmp: "mset (insort_cmp cmp x xs) = add_mset x (mset xs)"
  by (induction xs) auto

lemma mset_sort_cmp: "mset (sort_cmp cmp xs) = mset xs"
  by (induction xs) (simp_all add: sort_cmp_def mset_insort_cmp)

lemma set_insort_cmp: "set (insort_cmp cmp x xs) = insert x (set xs)"
  using mset_insort_cmp [of cmp x xs, THEN arg_cong, of set_mset] by simp

lemma sorted_insort_desc:
  fixes key :: "'a \<Rightarrow> string"
  assumes "sorted_wrt (\<lambda>x y. key y \<le> key x) xs"
  shows "sorted_wrt (\<lambda>x y. key y \<le> key x)
           (insort_cmp (\<lambda>a b. localeCompare (key b) (key a)) x xs)"
  using assms
proof (induction xs)
  case Nil
  then show ?case by simp
next
  case (Cons y ys)
  show ?case
  proof (cases "key y \<le> key x")
    case True
    with Cons.prems show ?thesis by (auto simp: localeCompare_le)
  next
    case False
    then have "key x \<le> key y" by simp
    with False Cons show ?thesis by (auto simp: localeCompare_le set_insort_cmp)
  qed
qed

lemma sorted_sort_desc:
  fixes key :: "'a \<Rightarrow> string"
  shows "sorted_wrt (\<lambda>x y. key y \<le> key x) (sort_cmp (\<lambda>a b. localeCompare (key b) (key a)) xs)"
  by (induction xs) (simp_all add: sort_cmp_def sorted_insort_desc)

lemma strict_of_distinct:
  fixes key :: "'a \<Rightarrow> string"
  shows "sorted_wrt (\<lambda>x y. key y \<le> key x) xs \<Longrightarrow> distinct (map key xs)
           \<Longrightarrow> sorted_wrt (\<lambda>x y. key y < key x) xs"
proof (induction xs)
  case Nil
  then show ?case by simp
next
  case (Cons a xs)
  from Cons.prems(2) have n: "key a \<notin> set (map key xs)" by simp
  have "key x \<noteq> key a" if "x \<in> set xs" for x
  proof
    assume "key x = key a"
    moreover from that have "key x \<in> set (map key xs)" by simp
    ultimately show False using n by simp
  qed
  with Cons show ?case by (simp add: less_le)
qed

lemma distinct_dates_of_user:
  "distinct (map (\<lambda>r. (userId r, date r)) xs)
     \<Longrightarrow> distinct (map date (filter (\<lambda>r. userId r = u \<and> Q r) xs))"
  by (induction xs) (auto simp: image_iff)

lemma truncate_withUser: "Attendance.truncate (withUser st r) = r"
  by (simp add: withUser_def Attendance.defs)

lemma date_withUser: "date (withUser st r) = date r"
  by (simp add: withUser_def Attendance.defs)

lemma getAttendanceReport_eq:
  "getAttendanceReport st a b e
     = map (withUser st)
         (sort_cmp (\<lambda>x y. localeCompare (date y) (date x))
            (filter (\<lambda>r. a \<le> date r \<and> date r \<le> b
                          \<and> (truthy e \<and> e \<noteq> Some ''all'' \<longrightarrow> Some (userId r) = e))
               (map_values (attendance st))))"
proof (cases e)
  case None
  then show ?thesis by (simp add: getAttendanceReport_def truthy_def)
next
  case (Some u)
  have "filter (\<lambda>r. userId r = u) (filter (\<lambda>r. a \<le> date r \<and> date r \<le> b) xs)
          = filter (\<lambda>r. a \<le> date r \<and> date r \<le> b \<and> u = userId r) xs" for xs :: "Attendance list"
    by (induction xs) auto
  with Some show ?thesis
    by (auto simp: getAttendanceReport_def truthy_def Let_def eq_commute intro!: arg_cong [where f = "map (withUser st)"])
qed

text \<open>
  C7. \<open>getUserAttendanceHistory\<close> returns exactly the records of the user whose date
  lies between the start and the end date, both included, in the lexicographic order
  of strings, sorted by date in descending order, strictly so when the store holds one
  record per user and day. \<open>getAttendanceReport\<close> applies the same date filter to all
  records, keeps one user's records exactly when the employee id is given (truthy) and
  is not \<^verbatim>\<open>"all"\<close>, and sorts by date in descending order.
\<close>

theorem C7_history_and_report_queries:
  "mset (getUserAttendanceHistory st uid a b)
     = mset (filter (\<lambda>r. userId r = uid \<and> a \<le> date r \<and> date r \<le> b)
               (map_values (attendance st)))
   \<and> sorted_wrt (\<lambda>x y. date y \<le> date x) (getUserAttendanceHistory st uid a b)
   \<and> (one_record_per_day st
        \<longrightarrow> sorted_wrt (\<lambda>x y. date y < date x) (getUserAttendanceHistory st uid a b))
   \<and> mset (map Attendance.truncate (getAttendanceReport st a b e))
       = mset (filter (\<lambda>r. a \<le> date r \<and> date r \<le> b
                           \<and> (truthy e \<and> e \<noteq> Some ''all'' \<longrightarrow> Some (userId r) = e))
                 (map_values (attendance st)))
   \<and> sorted_wrt (\<lambda>x y. date y \<le> date x) (getAttendanceReport st a b e)"
proof -
  let ?cmp = "\<lambda>x y :: Attendance. localeCompare (date y) (date x)"
  let ?P = "\<lambda>r :: Attendance. userId r = uid \<and> a \<le> date r \<and> date r \<le> b"
  let ?Q = "\<lambda>r :: Attendance. a \<le> date r \<and> date r \<le> b
                \<and> (truthy e \<and> e \<noteq> Some ''all'' \<longrightarrow> Some (userId r) = e)"
  let ?vs = "map_values (attendance st)"
  have h: "getUserAttendanceHistory st uid a b = sort_cmp ?cmp (filter ?P ?vs)"
    by (simp add: getUserAttendanceHistory_def)
  have m: "mset (getUserAttendanceHistory st uid a b) = mset (filter ?P ?vs)"
    unfolding h by (rule mset_sort_cmp)
  have s: "sorted_wrt (\<lambda>x y. date y \<le> date x) (getUserAttendanceHistory st uid a b)"
    unfolding h by (rule sorted_sort_desc)
  have t: "sorted_wrt (\<lambda>x y. date y < date x) (getUserAttendanceHistory st uid a b)"
    if one: "one_record_per_day st"
  proof -
    from one have "distinct (map date (filter ?P ?vs))"
      unfolding one_record_per_day_def by (rule distinct_dates_of_user)
    moreover have "mset (map date (getUserAttendanceHistory st uid a b))
                     = mset (map date (filter ?P ?vs))"
      using m by (simp only: mset_map)
    ultimately have "distinct (map date (getUserAttendanceHistory st uid a b))"
      using mset_eq_imp_distinct_iff by blast
    with s show ?thesis by (rule strict_of_distinct)
  qed
  have r: "getAttendanceReport st a b e = map (withUser st) (sort_cmp ?cmp (filter ?Q ?vs))"
    by (rule getAttendanceReport_eq)
  have "map Attendance.truncate (getAttendanceReport st a b e) = sort_cmp ?cmp (filter ?Q ?vs)"
    unfolding r by (simp add: comp_def truncate_withUser)
  then have rm: "mset (map Attendance.truncate (getAttendanceReport st a b e))
                   = mset (filter ?Q ?vs)"
    by (simp add: mset_sort_cmp)
  have "sorted_wrt (\<lambda>x y. date y \<le> date x) (sort_cmp ?cmp (filter ?Q ?vs))"
    by (rule sorted_sort_desc)
  then have rs: "sorted_wrt (\<lambda>x y. date y \<le> date x) (getAttendanceReport st a b e)"
    unfolding r by (simp add: sorted_wrt_map date_withUser)
  from m s t rm rs show ?thesis by blast
qed

text \<open>C7 on the small store: the month of March 2024, for one employee and for all.\<close>

theorem C7_history_and_report_queries_witness:
  "one_record_per_day example_storage
   \<and> sorted_wrt (\<lambda>x y. date y < date x)
        (getUserAttendanceHistory example_storage ''u1'' ''2024-03-01'' ''2024-03-31'')
   \<and> map id_att (getUserAttendanceHistory example_storage ''u1'' ''2024-03-01'' ''2024-03-31'')
        = [''a4'', ''a1'']
   \<and> mset (map Attendance.truncate
              (getAttendanceReport example_storage ''2024-03-01'' ''2024-03-31'' (Some ''u1'')))
        = mset (filter (\<lambda>r. ''2024-03-01'' \<le> date r \<and> date r \<le> ''2024-03-31''
                            \<and> userId r = ''u1'')
                  (map_values (attendance example_storage)))
   \<and> map id_att (getAttendanceReport example_storage ''2024-03-01'' ''2024-03-31'' (Some ''u1''))
        = [''a4'', ''a1'']
   \<and> map id_att (getAttendanceReport example_storage ''2024-03-01'' ''2024-03-31'' (Some ''all''))
        = [''a4'', ''a5'', ''a1'', ''a2'', ''a3'']"
proof -
  have o: "one_record_per_day example_storage" by code_simp
  note T = C7_history_and_report_queries
    [of example_storage "''u1''" "''2024-03-01''" "''2024-03-31''" "Some ''u1''"]
  from T o have s: "sorted_wrt (\<lambda>x y. date y < date x)
        (getUserAttendanceHistory example_storage ''u1'' ''2024-03-01'' ''2024-03-31'')"
    by blast
  from T have m: "mset (map Attendance.truncate
              (getAttendanceReport example_storage ''2024-03-01'' ''2024-03-31'' (Some ''u1'')))
        = mset (filter (\<lambda>r. ''2024-03-01'' \<le> date r \<and> date r \<le> ''2024-03-31''
                            \<and> userId r = ''u1'')
                  (map_values (attendance example_storage)))"
    by (simp add: truthy_def)
  have i: "map id_att (getUserAttendanceHistory example_storage ''u1'' ''2024-03-01'' ''2024-03-31'')
        = [''a4'', ''a1'']" by code_simp
  have j: "map id_att (getAttendanceReport example_storage ''2024-03-01'' ''2024-03-31'' (Some ''u1''))
        = [''a4'', ''a1'']" by code_simp
  have k: "map id_att (getAttendanceReport example_storage ''2024-03-01'' ''2024-03-31'' (Some ''all''))
        = [''a4'', ''a5'', ''a1'', ''a2'', ''a3'']" by code_simp
  from o s m i j k show ?thesis by blast
qed

section \<open>Joined views, the dashboard, the report route and the history route\<close>

lemma removePassword_password: "removePassword (u\<lparr>password := p\<rparr>) = removePassword u"
  by (simp add: removePassword_def UserWithoutPassword.defs)

lemma map_of_set_passwords:
  "map_of (map (\<lambda>(k, u). (k, u\<lparr>password := f k u\<rparr>)) us) i
     = map_option (\<lambda>u. u\<lparr>password := f i u\<rparr>) (map_of us i)"
  by (induction us) auto

lemma withUser_set_passwords: "withUser (set_passwords f st) r = withUser st r"
  by (simp add: withUser_def getUser_def set_passwords_def map_of_set_passwords
      removePassword_password split: option.splits)

lemma user_withUser:
  "user (withUser st r) = map_option removePassword (getUser st (userId r))"
  by (simp add: withUser_def Attendance.defs AttendanceWithUser.defs split: option.splits)

lemma userId_withUser: "userId (withUser st r) = userId r"
  by (simp add: withUser_def Attendance.defs)

text \<open>
  C9. \<open>getAllAttendanceForDate\<close> and \<open>getAttendanceReport\<close> return one entry for every
  matching attendance record, also when the owning user is not in the directory: the
  entry's \<^verbatim>\<open>user\<close> is then undefined (\<open>None\<close>), the record is not dropped and nothing
  is raised. Every profile returned is a \<open>UserWithoutPassword\<close>, the record type without
  the \<^verbatim>\<open>password\<close> field, obtained by \<open>removePassword\<close>. Hence two storages that
  differ only in the values of passwords give the same joined views.
\<close>

theorem C9_joined_views:
  "map Attendance.truncate (getAllAttendanceForDate st d)
     = filter (\<lambda>r. date r = d) (map_values (attendance st))
   \<and> length (getAttendanceReport st a b e)
       = length (filter (\<lambda>r. a \<le> date r \<and> date r \<le> b
                            \<and> (truthy e \<and> e \<noteq> Some ''all'' \<longrightarrow> Some (userId r) = e))
                   (map_values (attendance st)))
   \<and> (\<forall>x \<in> set (getAllAttendanceForDate st d) \<union> set (getAttendanceReport st a b e).
         user x = map_option removePassword (getUser st (userId x))
         \<and> (getUser st (userId x) = None \<longrightarrow> user x = None))
   \<and> getAllAttendanceForDate (set_passwords f st) d = getAllAttendanceForDate st d
   \<and> getAttendanceReport (set_passwords f st) a b e = getAttendanceReport st a b e"
proof -
  have 1: "map Attendance.truncate (getAllAttendanceForDate st d)
     = filter (\<lambda>r. date r = d) (map_values (attendance st))"
    by (simp add: getAllAttendanceForDate_def comp_def truncate_withUser)
  have 2: "length (getAttendanceReport st a b e)
       = length (filter (\<lambda>r. a \<le> date r \<and> date r \<le> b
                            \<and> (truthy e \<and> e \<noteq> Some ''all'' \<longrightarrow> Some (userId r) = e))
                   (map_values (attendance st)))"
    using mset_sort_cmp [THEN arg_cong, of size]
    by (simp add: getAttendanceReport_eq)
  have u: "user x = map_option removePassword (getUser st (userId x))"
    if "x \<in> withUser st ` A" for x A
    using that by (auto simp: user_withUser userId_withUser)
  have 3: "\<forall>x \<in> set (getAllAttendanceForDate st d) \<union> set (getAttendanceReport st a b e).
         user x = map_option removePassword (getUser st (userId x))
         \<and> (getUser st (userId x) = None \<longrightarrow> user x = None)"
  proof
    fix x
    assume "x \<in> set (getAllAttendanceForDate st d) \<union> set (getAttendanceReport st a b e)"
    then obtain A where "x \<in> withUser st ` A"
      by (auto simp: getAllAttendanceForDate_def getAttendanceReport_eq)
    from u [OF this] show "user x = map_option removePassword (getUser st (userId x))
         \<and> (getUser st (userId x) = None \<longrightarrow> user x = None)" by simp
  qed
  have a: "attendance (set_passwords f st) = attendance st"
    by (simp add: set_passwords_def)
  have w: "withUser (set_passwords f st) = withUser st"
    by (rule ext) (rule withUser_set_passwords)
  have 4: "getAllAttendanceForDate (set_passwords f st) d = getAllAttendanceForDate st d"
    by (simp add: getAllAttendanceForDate_def a w)
  have 5: "getAttendanceReport (set_passwords f st) a b e = getAttendanceReport st a b e"
    by (simp add: getAttendanceReport_eq a w)
  from 1 2 3 4 5 show ?thesis by blast
qed

text \<open>C9 on the small store, for the day on which one record belongs to an unknown user.\<close>

theorem C9_joined_views_witness:
  "withUser example_storage (ex_att ''a5'' ''u9'' ''2024-03-05'' (Some ''10:00:00'') None ''late'' None)
     \<in> set (getAllAttendanceForDate example_storage ''2024-03-05'')
   \<and> getUser example_storage ''u9'' = None
   \<and> user (withUser example_storage
        (ex_att ''a5'' ''u9'' ''2024-03-05'' (Some ''10:00:00'') None ''late'' None)) = None
   \<and> map id_att (getAllAttendanceForDate example_storage ''2024-03-05'') = [''a4'', ''a5'']
   \<and> getAllAttendanceForDate (set_passwords (\<lambda>k u. ''secret'') example_storage) ''2024-03-05''
       = getAllAttendanceForDate example_storage ''2024-03-05''"
proof -
  define x where
    "x = withUser example_storage
           (ex_att ''a5'' ''u9'' ''2024-03-05'' (Some ''10:00:00'') None ''late'' None)"
  have m: "x \<in> set (getAllAttendanceForDate example_storage ''2024-03-05'')"
    unfolding x_def by code_simp
  have i: "userId x = ''u9''"
    unfolding x_def by (simp add: userId_withUser ex_att_def)
  have g: "getUser example_storage ''u9'' = None" by code_simp
  note T = C9_joined_views [of example_storage "''2024-03-05''" "''2024-03-05''" "''2024-03-05''"
      None "\<lambda>k u. ''secret''"]
  from T m have "getUser example_storage (userId x) = None \<longrightarrow> user x = None" by blast
  with g i have u: "user x = None" by simp
  from T have l: "map Attendance.truncate (getAllAttendanceForDate example_storage ''2024-03-05'')
      = filter (\<lambda>r. date r = ''2024-03-05'') (map_values (attendance example_storage))" by blast
  have k: "map id_att (getAllAttendanceForDate example_storage ''2024-03-05'') = [''a4'', ''a5'']"
    by code_simp
  from T have p: "getAllAttendanceForDate (set_passwords (\<lambda>k u. ''secret'') example_storage)
        ''2024-03-05'' = getAllAttendanceForDate example_storage ''2024-03-05''" by blast
  from m g u k p show ?thesis unfolding x_def by blast
qed

lemma status_withUser: "status (withUser st r) = status r"
  by (simp add: withUser_def Attendance.defs)

lemma id_user_removePassword: "id_user (removePassword u) = id_user u"
  by (simp add: removePassword_def UserWithoutPassword.defs)

lemma dashboard_totalEmployees:
  "totalEmployees (getManagerDashboardStats st today week)
     = int (length (filter (\<lambda>u. role u = ''employee'') (map_values (users st))))"
  by (simp add: getManagerDashboardStats_def Let_def getAllEmployees_def)

lemma dashboard_presentToday:
  "presentToday (getManagerDashboardStats st today week)
     = int (length (filter (\<lambda>r. status r \<in> {''present'', ''late'', ''half-day''})
              (filter (\<lambda>r. date r = today) (map_values (attendance st)))))"
  by (simp add: getManagerDashboardStats_def Let_def getAllAttendanceForDate_def
      filter_map comp_def status_withUser)

lemma dashboard_absentToday:
  "absentToday (getManagerDashboardStats st today week)
     = int (length (filter (\<lambda>u. role u = ''employee'') (map_values (users st))))
       - int (length (filter (\<lambda>r. date r = today) (map_values (attendance st))))
       + int (length (filter (\<lambda>r. status r = ''absent'')
                (filter (\<lambda>r. date r = today) (map_values (attendance st)))))"
  by (simp add: getManagerDashboardStats_def Let_def getAllAttendanceForDate_def
      getAllEmployees_def filter_map comp_def status_withUser)

lemma dashboard_lateToday:
  "lateToday (getManagerDashboardStats st today week)
     = int (length (filter (\<lambda>r. status r = ''late'')
              (filter (\<lambda>r. date r = today) (map_values (attendance st)))))"
  by (simp add: getManagerDashboardStats_def Let_def getAllAttendanceForDate_def
      filter_map comp_def status_withUser)

lemma dashboard_absentEmployees:
  "absentEmployees (getManagerDashboardStats st today week)
     = map removePassword
         (filter (\<lambda>u. \<forall>r \<in> set (filter (\<lambda>r. date r = today) (map_values (attendance st))).
                        userId r \<noteq> id_user u)
            (filter (\<lambda>u. role u = ''employee'') (map_values (users st))))"
proof -
  have e: "absentEmployees (getManagerDashboardStats st today week)
     = filter (\<lambda>emp. id_user emp \<notin> set (map userId (getAllAttendanceForDate st today)))
         (getAllEmployees st)"
    by (simp add: getManagerDashboardStats_def Let_def)
  have u: "map userId (getAllAttendanceForDate st today)
     = map userId (filter (\<lambda>r. date r = today) (map_values (attendance st)))"
    by (simp add: getAllAttendanceForDate_def comp_def userId_withUser)
  have n: "(x \<notin> set (map userId rs)) = (\<forall>r \<in> set rs. userId r \<noteq> x)" for x and rs :: "Attendance list"
    by auto
  show ?thesis
    unfolding e u n getAllEmployees_def
    by (simp only: filter_map comp_def id_user_removePassword)
qed

lemma count_by_status:
  "length (filter (\<lambda>r. Q (status r)) rs) = size (filter_mset Q (mset (map status rs)))"
  by (induction rs) simp_all

lemma count_without_record:
  assumes d: "distinct (map id_user emps)" and dr: "distinct ids"
    and sub: "set ids \<subseteq> set (map id_user emps)"
  shows "length (filter (\<lambda>u. id_user u \<notin> set ids) emps) = length emps - length ids"
proof -
  let ?in = "filter (\<lambda>u. id_user u \<in> set ids) emps"
  have "distinct (map id_user ?in)" using d by (simp add: distinct_map_filter)
  then have "length ?in = card (set (map id_user ?in))"
    using distinct_card [of "map id_user ?in"] by simp
  also have "set (map id_user ?in) = set ids" using sub by auto
  also have "card (set ids) = length ids" using dr by (rule distinct_card)
  finally have l: "length ?in = length ids" .
  have "length emps = length ?in + length (filter (\<lambda>u. \<not> id_user u \<in> set ids) emps)"
    using sum_length_filter_compl [of "\<lambda>u. id_user u \<in> set ids" emps] by simp
  with l show ?thesis by simp
qed

lemma scenario:
  fixes recs :: "Attendance list"
  assumes m: "mset (map status recs) = {#''present'', ''present'', ''absent''#}"
  shows "length recs = 3"
    and "length (filter (\<lambda>r. status r \<in> {''present'', ''late'', ''half-day''}) recs) = 2"
    and "length (filter (\<lambda>r. status r = ''absent'') recs) = 1"
proof -
  from m have m': "image_mset status (mset recs) = {#''present'', ''present'', ''absent''#}"
    by simp
  from m [THEN arg_cong, of size] show "length recs = 3" by simp
  show "length (filter (\<lambda>r. status r \<in> {''present'', ''late'', ''half-day''}) recs) = 2"
    using count_by_status [of "\<lambda>s. s \<in> {''present'', ''late'', ''half-day''}" recs]
    by (simp add: m')
  show "length (filter (\<lambda>r. status r = ''absent'') recs) = 1"
    using count_by_status [of "\<lambda>s. s = ''absent''" recs]
    by (simp add: m')
qed

text \<open>
  C6. For every storage and day, the manager dashboard reports: \<^verbatim>\<open>totalEmployees\<close>,
  the number of users whose role is \<^verbatim>\<open>employee\<close>; \<^verbatim>\<open>presentToday\<close>, the number of the
  day's records whose status is \<^verbatim>\<open>present\<close>, \<^verbatim>\<open>late\<close> or \<^verbatim>\<open>half-day\<close>;
  \<^verbatim>\<open>absentToday\<close>, \<^verbatim>\<open>totalEmployees\<close> minus the number of the day's records plus the
  number of the day's \<^verbatim>\<open>absent\<close> records; \<^verbatim>\<open>lateToday\<close>, the number of the day's
  \<^verbatim>\<open>late\<close> records; and \<^verbatim>\<open>absentEmployees\<close>, the profiles of exactly the employees
  with no record that day. Whenever there are five employees of whom three have the
  day's records, two \<^verbatim>\<open>present\<close> and one \<^verbatim>\<open>absent\<close>, it reports 2 present and 3
  absent and lists two absent employees; on the small store these are the two employees
  without a record.
\<close>

theorem C6_manager_dashboard_stats:
  "(let stats = getManagerDashboardStats st today week;
        records = filter (\<lambda>r. date r = today) (map_values (attendance st));
        employees = filter (\<lambda>u. role u = ''employee'') (map_values (users st))
    in totalEmployees stats = int (length employees)
       \<and> presentToday stats
           = int (length (filter (\<lambda>r. status r \<in> {''present'', ''late'', ''half-day''}) records))
       \<and> absentToday stats
           = totalEmployees stats - int (length records)
             + int (length (filter (\<lambda>r. status r = ''absent'') records))
       \<and> lateToday stats = int (length (filter (\<lambda>r. status r = ''late'') records))
       \<and> absentEmployees stats
           = map removePassword
               (filter (\<lambda>u. \<forall>r \<in> set records. userId r \<noteq> id_user u) employees)
       \<and> (length employees = 5 \<and> distinct (map id_user employees)
            \<and> mset (map status records) = {#''present'', ''present'', ''absent''#}
            \<and> distinct (map userId records)
            \<and> set (map userId records) \<subseteq> set (map id_user employees)
          \<longrightarrow> presentToday stats = 2 \<and> absentToday stats = 3
              \<and> length (absentEmployees stats) = 2))
   \<and> (let stats = getManagerDashboardStats example_storage ''2024-03-04'' week
      in totalEmployees stats = 5 \<and> presentToday stats = 2 \<and> absentToday stats = 3
         \<and> lateToday stats = 0 \<and> map id_user (absentEmployees stats) = [''u4'', ''u5''])"
proof -
  define records where
    "records = filter (\<lambda>r. date r = today) (map_values (attendance st))"
  define employees where
    "employees = filter (\<lambda>u. role u = ''employee'') (map_values (users st))"
  note d = dashboard_totalEmployees [of st today week] dashboard_presentToday [of st today week]
    dashboard_absentToday [of st today week] dashboard_lateToday [of st today week]
    dashboard_absentEmployees [of st today week]
  note d' = d [folded records_def employees_def]
  have sc: "presentToday (getManagerDashboardStats st today week) = 2
      \<and> absentToday (getManagerDashboardStats st today week) = 3
      \<and> length (absentEmployees (getManagerDashboardStats st today week)) = 2"
    if five: "length employees = 5" and de: "distinct (map id_user employees)"
      and m: "mset (map status records) = {#''present'', ''present'', ''absent''#}"
      and dr: "distinct (map userId records)"
      and sub: "set (map userId records) \<subseteq> set (map id_user employees)"
  proof -
    note s = scenario [OF m]
    have n0: "(x \<notin> set (map userId rs)) = (\<forall>r \<in> set rs. userId r \<noteq> x)"
      for x and rs :: "Attendance list"
      by auto
    have n: "(\<forall>r \<in> set records. userId r \<noteq> id_user u)
               = (id_user u \<notin> set (map userId records))" for u
      by (rule n0 [symmetric])
    have "length (filter (\<lambda>u. id_user u \<notin> set (map userId records)) employees)
            = length employees - length (map userId records)"
      using de dr sub by (rule count_without_record)
    then have "length (filter (\<lambda>u. \<forall>r \<in> set records. userId r \<noteq> id_user u) employees) = 2"
      by (simp only: n) (simp add: five s(1))
    with s five show ?thesis by (simp add: d')
  qed
  have e1: "int (length (filter (\<lambda>u. role u = ''employee'')
              (map_values (users example_storage)))) = 5"
    by code_simp
  have e2: "int (length (filter (\<lambda>r. status r \<in> {''present'', ''late'', ''half-day''})
              (filter (\<lambda>r. date r = ''2024-03-04'') (map_values (attendance example_storage)))))
            = 2"
    by code_simp
  have e3: "int (length (filter (\<lambda>r. date r = ''2024-03-04'')
              (map_values (attendance example_storage)))) = 3"
    by code_simp
  have e4: "int (length (filter (\<lambda>r. status r = ''absent'')
              (filter (\<lambda>r. date r = ''2024-03-04'') (map_values (attendance example_storage)))))
            = 1"
    by code_simp
  have e5: "int (length (filter (\<lambda>r. status r = ''late'')
              (filter (\<lambda>r. date r = ''2024-03-04'') (map_values (attendance example_storage)))))
            = 0"
    by code_simp
  have e6: "map id_user (map removePassword
              (filter (\<lambda>u. \<forall>r \<in> set (filter (\<lambda>r. date r = ''2024-03-04'')
                                         (map_values (attendance example_storage))).
                             userId r \<noteq> id_user u)
                 (filter (\<lambda>u. role u = ''employee'') (map_values (users example_storage)))))
            = [''u4'', ''u5'']"
    by code_simp
  have g: "totalEmployees (getManagerDashboardStats example_storage ''2024-03-04'' week) = 5"
    "presentToday (getManagerDashboardStats example_storage ''2024-03-04'' week) = 2"
    "absentToday (getManagerDashboardStats example_storage ''2024-03-04'' week) = 3"
    "lateToday (getManagerDashboardStats example_storage ''2024-03-04'' week) = 0"
    "map id_user (absentEmployees (getManagerDashboardStats example_storage ''2024-03-04'' week))
       = [''u4'', ''u5'']"
    by (simp_all only: dashboard_totalEmployees dashboard_presentToday dashboard_absentToday
        dashboard_lateToday dashboard_absentEmployees e1 e2 e3 e4 e5 e6)
  from d' sc g show ?thesis
    unfolding Let_def records_def [symmetric] employees_def [symmetric]
    by (intro conjI impI) simp_all
qed

text \<open>C6 on the small store: the scenario of five employees and three records.\<close>

theorem C6_manager_dashboard_stats_witness:
  "map status (filter (\<lambda>r. date r = ''2024-03-04'') (map_values (attendance example_storage)))
     = [''present'', ''present'', ''absent'']
   \<and> map userId (filter (\<lambda>r. date r = ''2024-03-04'') (map_values (attendance example_storage)))
     = [''u1'', ''u2'', ''u3'']
   \<and> map id_user (filter (\<lambda>u. role u = ''employee'') (map_values (users example_storage)))
     = [''u1'', ''u2'', ''u3'', ''u4'', ''u5'']
   \<and> presentToday (getManagerDashboardStats example_storage ''2024-03-04'' []) = 2
   \<and> absentToday (getManagerDashboardStats example_storage ''2024-03-04'' []) = 5 - 3 + 1
   \<and> length (absentEmployees (getManagerDashboardStats example_storage ''2024-03-04'' [])) = 2
   \<and> absentEmployees (getManagerDashboardStats example_storage ''2024-03-04'' [])
     = [removePassword (ex_user ''u4'' ''employee'' ''Design''),
        removePassword (ex_user ''u5'' ''employee'' ''Marketing'')]"
proof -
  let ?recs = "filter (\<lambda>r. date r = ''2024-03-04'') (map_values (attendance example_storage))"
  let ?emps = "filter (\<lambda>u. role u = ''employee'') (map_values (users example_storage))"
  have a: "map status ?recs = [''present'', ''present'', ''absent'']"
    by code_simp
  have b: "map userId ?recs = [''u1'', ''u2'', ''u3'']"
    by code_simp
  have c: "map id_user ?emps = [''u1'', ''u2'', ''u3'', ''u4'', ''u5'']"
    by code_simp
  have d: "map removePassword
             (filter (\<lambda>u. \<forall>r \<in> set ?recs. userId r \<noteq> id_user u) ?emps)
           = [removePassword (ex_user ''u4'' ''employee'' ''Design''),
              removePassword (ex_user ''u5'' ''employee'' ''Marketing'')]"
    by code_simp
  have h1: "length ?emps = 5" using c [THEN arg_cong, of length] by simp
  have h2: "distinct (map id_user ?emps)" by (simp only: c) simp
  have h3: "mset (map status ?recs) = {#''present'', ''present'', ''absent''#}"
    by (simp only: a) simp
  have h4: "distinct (map userId ?recs)" by (simp only: b) simp
  have h5: "set (map userId ?recs) \<subseteq> set (map id_user ?emps)" by (simp only: b c) simp
  note T = C6_manager_dashboard_stats [of example_storage "''2024-03-04''" "[]", unfolded Let_def]
  from T h1 h2 h3 h4 h5
  have e: "presentToday (getManagerDashboardStats example_storage ''2024-03-04'' []) = 2
      \<and> absentToday (getManagerDashboardStats example_storage ''2024-03-04'' []) = 3
      \<and> length (absentEmployees (getManagerDashboardStats example_storage ''2024-03-04'' [])) = 2"
    by blast
  from T have f: "absentEmployees (getManagerDashboardStats example_storage ''2024-03-04'' [])
     = map removePassword (filter (\<lambda>u. \<forall>r \<in> set ?recs. userId r \<noteq> id_user u) ?emps)"
    by blast
  from a b c e f d show ?thesis by simp
qed


lemma inverted_range_empty:
  fixes a b :: string
  assumes "b < a"
  shows "filter (\<lambda>r. a \<le> date r \<and> date r \<le> b \<and> Q r) xs = []"
proof -
  have "\<not> (a \<le> d \<and> d \<le> b)" for d :: string
    using assms by auto
  then show ?thesis by (auto simp: filter_empty_conv)
qed

lemma get_my_history_cases:
  "get_my_history mb st uid mq tm =
     (case mb (if truthy mq then the mq else tm) of
        None \<Rightarrow> Inl HistoryFailed
      | Some (s, e) \<Rightarrow>
          Inr (getUserAttendanceHistory st uid s e,
               \<lparr>presentDays = count_status ''present'' (getUserAttendanceHistory st uid s e),
                absentDays = count_status ''absent'' (getUserAttendanceHistory st uid s e),
                lateDays = count_status ''late'' (getUserAttendanceHistory st uid s e),
                halfDays = count_status ''half-day'' (getUserAttendanceHistory st uid s e)\<rparr>))"
  by (simp add: get_my_history_def getUserMonthlySummary_def Let_def split: option.splits)

text \<open>
  C8, as amended. The report route rejects a query exactly when the start date or the
  end date is missing or empty (\<open>DatesRequired\<close>). It has no check of the range: with
  both dates given it succeeds whatever they are, and for an inverted range (the start
  date lexicographically greater than the end date) it answers with no records and a
  summary of zeros. The history route takes a month and derives the range from it; it
  fails (\<open>HistoryFailed\<close>, status 500) exactly when the month is malformed, that is when
  \<^verbatim>\<open>new Date\<close> gives an Invalid Date and \<^verbatim>\<open>format\<close> throws, and otherwise succeeds with
  the user's records of the derived range. On a server in UTC the month
  \<^verbatim>\<open>2024-13\<close> fails and the month \<^verbatim>\<open>2024-02\<close> gives the range from 2024-02-01 to
  2024-02-29.
\<close>

theorem C8_range_queries_rejections:
  "(get_report st s e emp = Inl err \<longleftrightarrow> err = DatesRequired \<and> (\<not> truthy s \<or> \<not> truthy e))
   \<and> (truthy s \<and> truthy e \<longrightarrow>
        get_report st s e emp
          = (let records = getAttendanceReport st (the s) (the e) emp
             in Inr (records,
                  \<lparr>totalRecords = int (length records),
                   presentCount = count_status ''present'' records,
                   absentCount = count_status ''absent'' records,
                   lateCount = count_status ''late'' records,
                   halfDayCount = count_status ''half-day'' records\<rparr>)))
   \<and> (truthy s \<and> truthy e \<and> the e < the s \<longrightarrow>
        get_report st s e emp
          = Inr ([], \<lparr>totalRecords = 0, presentCount = 0, absentCount = 0, lateCount = 0,
                      halfDayCount = 0\<rparr>))
   \<and> (get_my_history mb st uid mq tm = Inl err'
        \<longleftrightarrow> err' = HistoryFailed \<and> mb (if truthy mq then the mq else tm) = None)
   \<and> (\<forall>a b. mb (if truthy mq then the mq else tm) = Some (a, b) \<longrightarrow>
        get_my_history mb st uid mq tm
          = (let records = getUserAttendanceHistory st uid a b
             in Inr (records,
                  \<lparr>presentDays = count_status ''present'' records,
                   absentDays = count_status ''absent'' records,
                   lateDays = count_status ''late'' records,
                   halfDays = count_status ''half-day'' records\<rparr>)))
   \<and> utc_month_bounds ''2024-13'' = None
   \<and> get_my_history utc_month_bounds st uid (Some ''2024-13'') tm = Inl HistoryFailed
   \<and> utc_month_bounds ''2024-02'' = Some (''2024-02-01'', ''2024-02-29'')
   \<and> get_my_history utc_month_bounds st uid (Some ''2024-02'') tm
       = (let records = getUserAttendanceHistory st uid ''2024-02-01'' ''2024-02-29''
          in Inr (records,
               \<lparr>presentDays = count_status ''present'' records,
                absentDays = count_status ''absent'' records,
                lateDays = count_status ''late'' records,
                halfDays = count_status ''half-day'' records\<rparr>))"
proof -
  have r: "getAttendanceReport st a b emp = []" if "b < a" for a b
    unfolding getAttendanceReport_eq
    by (simp add: inverted_range_empty [OF that] sort_cmp_def)
  have rep: "(get_report st s e emp = Inl err \<longleftrightarrow> err = DatesRequired \<and> (\<not> truthy s \<or> \<not> truthy e))
   \<and> (truthy s \<and> truthy e \<longrightarrow>
        get_report st s e emp
          = (let records = getAttendanceReport st (the s) (the e) emp
             in Inr (records,
                  \<lparr>totalRecords = int (length records),
                   presentCount = count_status ''present'' records,
                   absentCount = count_status ''absent'' records,
                   lateCount = count_status ''late'' records,
                   halfDayCount = count_status ''half-day'' records\<rparr>)))
   \<and> (truthy s \<and> truthy e \<and> the e < the s \<longrightarrow>
        get_report st s e emp
          = Inr ([], \<lparr>totalRecords = 0, presentCount = 0, absentCount = 0, lateCount = 0,
                      halfDayCount = 0\<rparr>))"
    by (auto simp: get_report_def Let_def r count_status_def)
  have h1: "get_my_history mb st uid mq tm = Inl err'
        \<longleftrightarrow> err' = HistoryFailed \<and> mb (if truthy mq then the mq else tm) = None"
    unfolding get_my_history_cases by (auto split: option.splits)
  have h2: "\<forall>a b. mb (if truthy mq then the mq else tm) = Some (a, b) \<longrightarrow>
        get_my_history mb st uid mq tm
          = (let records = getUserAttendanceHistory st uid a b
             in Inr (records,
                  \<lparr>presentDays = count_status ''present'' records,
                   absentDays = count_status ''absent'' records,
                   lateDays = count_status ''late'' records,
                   halfDays = count_status ''half-day'' records\<rparr>))"
    unfolding get_my_history_cases by (simp add: Let_def)
  have u1: "utc_month_bounds ''2024-13'' = None" by code_simp
  have u2: "utc_month_bounds ''2024-02'' = Some (''2024-02-01'', ''2024-02-29'')" by code_simp
  have t: "truthy (Some ''2024-13'')" "truthy (Some ''2024-02'')" by (simp_all add: truthy_def)
  have h4: "get_my_history utc_month_bounds st uid (Some ''2024-13'') tm = Inl HistoryFailed"
    unfolding get_my_history_cases by (simp only: t if_True option.sel u1 option.case)
  have h5: "get_my_history utc_month_bounds st uid (Some ''2024-02'') tm
       = (let records = getUserAttendanceHistory st uid ''2024-02-01'' ''2024-02-29''
          in Inr (records,
               \<lparr>presentDays = count_status ''present'' records,
                absentDays = count_status ''absent'' records,
                lateDays = count_status ''late'' records,
                halfDays = count_status ''half-day'' records\<rparr>))"
    unfolding get_my_history_cases Let_def
    by (simp only: t if_True option.sel u2 option.case prod.case)
  from rep h1 h2 u1 h4 u2 h5 show ?thesis by (intro conjI) blast+
qed

text \<open>
  The amended C8 on the small store: a report for an inverted range and one without an
  end date, the history of March 2024 and the history of the malformed month
  \<^verbatim>\<open>2024-00\<close>.
\<close>

theorem C8_range_queries_rejections_witness:
  "truthy (Some ''2024-03-05'') \<and> truthy (Some ''2024-03-04'')
   \<and> the (Some ''2024-03-04'') < the (Some ''2024-03-05'')
   \<and> get_report example_storage (Some ''2024-03-05'') (Some ''2024-03-04'') (Some ''u1'')
       = Inr ([], \<lparr>totalRecords = 0, presentCount = 0, absentCount = 0, lateCount = 0,
                   halfDayCount = 0\<rparr>)
   \<and> get_report example_storage (Some ''2024-03-05'') None (Some ''u1'') = Inl DatesRequired
   \<and> utc_month_bounds ''2024-03'' = Some (''2024-03-01'', ''2024-03-31'')
   \<and> map id_att (case get_my_history utc_month_bounds example_storage ''u1'' (Some ''2024-03'')
                      ''2024-05'' of Inl x \<Rightarrow> [] | Inr (records, summary) \<Rightarrow> records)
       = [''a4'', ''a1'']
   \<and> utc_month_bounds ''2024-00'' = None
   \<and> get_my_history utc_month_bounds example_storage ''u1'' (Some ''2024-00'') ''2024-05''
       = Inl HistoryFailed"
proof -
  have a: "truthy (Some ''2024-03-05'')" "truthy (Some ''2024-03-04'')" "\<not> truthy None"
    "truthy (Some ''2024-03'')" "truthy (Some ''2024-00'')"
    by (simp_all add: truthy_def)
  have b: "the (Some ''2024-03-04'') < the (Some ''2024-03-05'')" by simp
  have m3: "utc_month_bounds ''2024-03'' = Some (''2024-03-01'', ''2024-03-31'')" by code_simp
  have m0: "utc_month_bounds ''2024-00'' = None" by code_simp
  have hs: "map id_att (getUserAttendanceHistory example_storage ''u1'' ''2024-03-01'' ''2024-03-31'')
      = [''a4'', ''a1'']" by code_simp
  note T = C8_range_queries_rejections
    [of example_storage "Some ''2024-03-05''" "Some ''2024-03-04''" "Some ''u1''" DatesRequired
        utc_month_bounds "''u1''" "Some ''2024-03''" "''2024-05''" HistoryFailed]
  note U = C8_range_queries_rejections
    [of example_storage "Some ''2024-03-05''" None "Some ''u1''" DatesRequired
        utc_month_bounds "''u1''" "Some ''2024-00''" "''2024-05''" HistoryFailed]
  from T a b have c: "get_report example_storage (Some ''2024-03-05'') (Some ''2024-03-04'')
       (Some ''u1'')
       = Inr ([], \<lparr>totalRecords = 0, presentCount = 0, absentCount = 0, lateCount = 0,
                   halfDayCount = 0\<rparr>)"
    by blast
  from U a have d: "get_report example_storage (Some ''2024-03-05'') None (Some ''u1'')
       = Inl DatesRequired"
    by blast
  from T have "\<forall>a b. utc_month_bounds (if truthy (Some ''2024-03'') then the (Some ''2024-03'')
                   else ''2024-05'') = Some (a, b) \<longrightarrow>
        get_my_history utc_month_bounds example_storage ''u1'' (Some ''2024-03'') ''2024-05''
          = (let records = getUserAttendanceHistory example_storage ''u1'' a b
             in Inr (records,
                  \<lparr>presentDays = count_status ''present'' records,
                   absentDays = count_status ''absent'' records,
                   lateDays = count_status ''late'' records,
                   halfDays = count_status ''half-day'' records\<rparr>))"
    by blast
  with a m3 have e: "map id_att (case get_my_history utc_month_bounds example_storage ''u1''
        (Some ''2024-03'') ''2024-05'' of Inl x \<Rightarrow> [] | Inr (records, summary) \<Rightarrow> records)
       = [''a4'', ''a1'']"
    by (simp add: Let_def hs)
  from U have "get_my_history utc_month_bounds example_storage ''u1'' (Some ''2024-00'') ''2024-05''
        = Inl HistoryFailed
        \<longleftrightarrow> HistoryFailed = HistoryFailed
            \<and> utc_month_bounds (if truthy (Some ''2024-00'') then the (Some ''2024-00'')
                 else ''2024-05'') = None"
    by blast
  with a m0 have f: "get_my_history utc_month_bounds example_storage ''u1'' (Some ''2024-00'')
        ''2024-05'' = Inl HistoryFailed"
    by simp
  from a b c d m3 e m0 f show ?thesis by blast
qed

text \<open>
  C8 as stated fails: the report for the inverted range from 2024-03-05 to 2024-03-04
  is not rejected, it succeeds with an empty list.
\<close>

theorem C8_inverted_range_counterexample:
  "''2024-03-04'' < ''2024-03-05''
   \<and> get_report example_storage (Some ''2024-03-05'') (Some ''2024-03-04'') None
       = Inr ([], \<lparr>totalRecords = 0, presentCount = 0, absentCount = 0, lateCount = 0,
                   halfDayCount = 0\<rparr>)"
  by code_simp

end
